theory Spec2Isabelle
  imports Main
begin

section \<open>Python values\<close>

text \<open>
  A Python \<open>str\<close> is a sequence of Unicode code points, so a string is a list of
  naturals here. The labels of the program are Cyrillic and do not fit the 8-bit
  characters of HOL; ASCII literals are written through \<open>ustr\<close>.
\<close>

type_synonym ustring = "nat list"

definition ustr :: "string \<Rightarrow> ustring" where
  "ustr s = map of_char s"

text \<open>
  The values a spreadsheet cell or a column label can hold, as far as the program
  tells them apart: strings, integers, the missing value of a float column, \<open>None\<close>,
  and the timestamps the pipeline writes into its derived columns.
\<close>

record datetime =
  year :: int
  month :: int
  day :: int
  hour :: int
  minute :: int
  second :: int

datatype pyval =
    PStr ustring
  | PInt int
  | PNaN
  | PNone
  | PDatetime datetime

text \<open>
  The exceptions that occur: \<open>ValueError\<close> from \<open>int\<close>, from the \<open>datetime\<close>
  constructor and from \<open>process_dataframe\<close>; the others stand for what
  \<open>requests.get\<close> raises.
\<close>

datatype exn = ValueError | Timeout | ConnectionError | MissingSchema

definition ebind :: "exn + 'a \<Rightarrow> ('a \<Rightarrow> exn + 'b) \<Rightarrow> exn + 'b" where
  "ebind m f = (case m of Inl e \<Rightarrow> Inl e | Inr x \<Rightarrow> f x)"

section \<open>String operations of the standard library\<close>

text \<open>
  \<open>str.isspace\<close> of one character: the code points CPython treats as whitespace.
\<close>

definition isspace :: "nat \<Rightarrow> bool" where
  "isspace c \<longleftrightarrow>
     (9 \<le> c \<and> c \<le> 13) \<or> (28 \<le> c \<and> c \<le> 32) \<or> c = 133 \<or> c = 160 \<or> c = 5760
     \<or> (8192 \<le> c \<and> c \<le> 8202) \<or> c = 8232 \<or> c = 8233 \<or> c = 8239 \<or> c = 8287
     \<or> c = 12288"

definition py_strip :: "ustring \<Rightarrow> ustring" where
  "py_strip s = rev (dropWhile isspace (rev (dropWhile isspace s)))"

text \<open>\<open>s.lstrip(chars)\<close>: drops every leading character that is in \<open>chars\<close>.\<close>

definition py_lstrip :: "ustring \<Rightarrow> ustring \<Rightarrow> ustring" where
  "py_lstrip chars s = dropWhile (\<lambda>c. c \<in> set chars) s"

text \<open>\<open>s[i:j]\<close> for literal indices \<open>0 \<le> i \<le> j\<close>.\<close>

definition py_slice :: "ustring \<Rightarrow> nat \<Rightarrow> nat \<Rightarrow> ustring" where
  "py_slice s i j = take (j - i) (drop i s)"

text \<open>
  The decimal digits. In a \<open>str\<close> pattern \<open>\d\<close> matches every character of the
  Unicode category Nd, and \<open>int\<close> reads each of them with its decimal value. The table
  is not part of the program, so the functions take it as the parameter \<open>dv\<close>: the
  decimal value of a code point, \<open>None\<close> for a character that is not a digit.
  \<open>ascii_digits\<close> is the table restricted to ASCII.
\<close>

type_synonym digit_table = "nat \<Rightarrow> nat option"

definition ascii_digits :: digit_table where
  "ascii_digits c = (if 48 \<le> c \<and> c \<le> 57 then Some (c - 48) else None)"

definition is_decimal :: "digit_table \<Rightarrow> nat \<Rightarrow> bool" where
  "is_decimal dv c \<longleftrightarrow> dv c \<noteq> None"

text \<open>
  \<open>int(s)\<close> on the strings the program passes: a non-empty run of decimal digits gives
  its value, and a string that is not one raises \<open>ValueError\<close>.
\<close>

fun int_digits :: "digit_table \<Rightarrow> int \<Rightarrow> ustring \<Rightarrow> exn + int" where
  "int_digits dv acc [] = Inr acc"
| "int_digits dv acc (c # cs) =
     (case dv c of
        None \<Rightarrow> Inl ValueError
      | Some d \<Rightarrow> int_digits dv (10 * acc + int d) cs)"

definition py_int :: "digit_table \<Rightarrow> ustring \<Rightarrow> exn + int" where
  "py_int dv s = (if s = [] then Inl ValueError else int_digits dv 0 s)"

section \<open>Calendar timestamps\<close>

definition is_leap :: "int \<Rightarrow> bool" where
  "is_leap y \<longleftrightarrow> y mod 4 = 0 \<and> (y mod 100 \<noteq> 0 \<or> y mod 400 = 0)"

definition days_in_month :: "int \<Rightarrow> int \<Rightarrow> int" where
  "days_in_month y m =
     (if m = 2 then (if is_leap y then 29 else 28)
      else if m = 4 \<or> m = 6 \<or> m = 9 \<or> m = 11 then 30 else 31)"

text \<open>
  \<open>dt.datetime(year, month, day, hour, minute, second)\<close>: every field out of range is a
  \<open>ValueError\<close>.
\<close>

definition valid_datetime :: "int \<Rightarrow> int \<Rightarrow> int \<Rightarrow> int \<Rightarrow> int \<Rightarrow> int \<Rightarrow> bool" where
  "valid_datetime y m d hh mm ss \<longleftrightarrow>
     1 \<le> y \<and> y \<le> 9999 \<and> 1 \<le> m \<and> m \<le> 12 \<and> 1 \<le> d \<and> d \<le> days_in_month y m
     \<and> 0 \<le> hh \<and> hh \<le> 23 \<and> 0 \<le> mm \<and> mm \<le> 59 \<and> 0 \<le> ss \<and> ss \<le> 59"

definition datetime_new :: "int \<Rightarrow> int \<Rightarrow> int \<Rightarrow> int \<Rightarrow> int \<Rightarrow> int \<Rightarrow> exn + datetime" where
  "datetime_new y m d hh mm ss =
     (if valid_datetime y m d hh mm ss
      then Inr \<lparr>year = y, month = m, day = d, hour = hh, minute = mm, second = ss\<rparr>
      else Inl ValueError)"

section \<open>extract_datetime_from_string\<close>

text \<open>
  \<open>re.search(r"saved-(\d{8})_(\d{6})", s)\<close>. The pattern has one length, 21 characters,
  and no alternative, so a match at a position is decided by the characters there:
  \<open>match_here\<close> is the match anchored at the start of its argument and gives the two
  groups; \<open>re_search\<close> tries the positions from left to right and returns the first
  match.
\<close>

definition match_here :: "digit_table \<Rightarrow> ustring \<Rightarrow> (ustring \<times> ustring) option" where
  "match_here dv s =
     (let date_part = take 8 (drop 6 s); time_part = take 6 (drop 15 s)
      in if take 6 s = ustr ''saved-''
            \<and> length date_part = 8 \<and> list_all (is_decimal dv) date_part
            \<and> take 1 (drop 14 s) = ustr ''_''
            \<and> length time_part = 6 \<and> list_all (is_decimal dv) time_part
         then Some (date_part, time_part)
         else None)"

fun re_search :: "digit_table \<Rightarrow> ustring \<Rightarrow> (ustring \<times> ustring) option" where
  "re_search dv [] = match_here dv []"
| "re_search dv (c # cs) =
     (case match_here dv (c # cs) of
        Some m \<Rightarrow> Some m
      | None \<Rightarrow> re_search dv cs)"

text \<open>The body of the \<open>try\<close> block: six conversions and the constructor.\<close>

definition parse_parts :: "digit_table \<Rightarrow> ustring \<Rightarrow> ustring \<Rightarrow> exn + datetime" where
  "parse_parts dv date_part time_part =
     ebind (py_int dv (py_slice date_part 0 4)) (\<lambda>y.
     ebind (py_int dv (py_slice date_part 4 6)) (\<lambda>m.
     ebind (py_int dv (py_slice date_part 6 8)) (\<lambda>d.
     ebind (py_int dv (py_slice time_part 0 2)) (\<lambda>hh.
     ebind (py_int dv (py_slice time_part 2 4)) (\<lambda>mm.
     ebind (py_int dv (py_slice time_part 4 6)) (\<lambda>ss.
     datetime_new y m d hh mm ss))))))"

text \<open>
  The result is \<open>Inr\<close> of what the function returns (\<open>None\<close> or a timestamp) and
  \<open>Inl\<close> of an exception that leaves it. \<open>except ValueError\<close> catches that class
  only.
\<close>

definition extract_datetime_from_string :: "digit_table \<Rightarrow> pyval \<Rightarrow> exn + datetime option" where
  "extract_datetime_from_string dv v =
     (case v of
        PStr s \<Rightarrow>
          (case re_search dv s of
             None \<Rightarrow> Inr None
           | Some (date_part, time_part) \<Rightarrow>
               (case parse_parts dv date_part time_part of
                  Inr t \<Rightarrow> Inr (Some t)
                | Inl ValueError \<Rightarrow> Inr None
                | Inl e \<Rightarrow> Inl e))
      | _ \<Rightarrow> Inr None)"

text \<open>
  The claim about \<open>extract_datetime_from_string\<close> speaks of positions of a string: the
  pattern occurs at position \<open>i\<close> when the 21 characters from \<open>i\<close> on are the marker,
  eight digits, an underscore and six digits. \<open>field\<close> is the decimal number written by
  \<open>n\<close> characters from position \<open>k\<close> on, and \<open>encoded_timestamp\<close> the timestamp
  that the occurrence at \<open>i\<close> encodes, when its six numbers are a calendar date and time.
\<close>

definition pattern_at :: "digit_table \<Rightarrow> ustring \<Rightarrow> nat \<Rightarrow> bool" where
  "pattern_at dv s i \<longleftrightarrow>
     (let w = take 21 (drop i s)
      in length w = 21 \<and> take 6 w = ustr ''saved-''
         \<and> list_all (is_decimal dv) (take 8 (drop 6 w))
         \<and> w ! 14 = 95
         \<and> list_all (is_decimal dv) (drop 15 w))"

definition decimal_number :: "digit_table \<Rightarrow> ustring \<Rightarrow> int" where
  "decimal_number dv w = foldl (\<lambda>a c. 10 * a + (case dv c of Some d \<Rightarrow> int d | None \<Rightarrow> 0)) 0 w"

definition field :: "digit_table \<Rightarrow> ustring \<Rightarrow> nat \<Rightarrow> nat \<Rightarrow> int" where
  "field dv s k n = decimal_number dv (take n (drop k s))"

definition encoded_timestamp :: "digit_table \<Rightarrow> ustring \<Rightarrow> nat \<Rightarrow> datetime option" where
  "encoded_timestamp dv s i =
     (let y = field dv s (i + 6) 4; m = field dv s (i + 10) 2; d = field dv s (i + 12) 2;
          hh = field dv s (i + 15) 2; mm = field dv s (i + 17) 2; ss = field dv s (i + 19) 2
      in if valid_datetime y m d hh mm ss
         then Some \<lparr>year = y, month = m, day = d, hour = hh, minute = mm, second = ss\<rparr>
         else None)"


section \<open>get_datetime_from_url\<close>

text \<open>
  The module keeps one dictionary, \<open>_url_datetime_cache\<close>, from the normalized URL to the
  result of its resolution; a stored \<open>None\<close> is a resolution that found no timestamp.
  The state of the resolver is that dictionary together with the list of the URLs that
  were passed to \<open>requests.get\<close>, oldest first: the list is not in the program, it
  records the network fetches so that statements can count them.

  The network is a parameter. \<open>net n url\<close> is what the \<open>n\<close>-th fetch of the run (counted
  from 0) gives for \<open>url\<close>: \<open>Inr\<close> of the final URL after the redirects, or \<open>Inl\<close> of
  the exception \<open>requests.get\<close> raises. The index lets the answer for one URL change
  from one fetch to the next.
\<close>

type_synonym network = "nat \<Rightarrow> ustring \<Rightarrow> exn + ustring"

record resolver_state =
  url_datetime_cache :: "ustring \<rightharpoonup> datetime option"
  fetched :: "ustring list"

definition initial_state :: resolver_state where
  "initial_state = \<lparr>url_datetime_cache = Map.empty, fetched = []\<rparr>"

text \<open>\<open>raw_url.strip().lstrip("@")\<close>\<close>

definition normalize_url :: "ustring \<Rightarrow> ustring" where
  "normalize_url raw_url = py_lstrip (ustr ''@'') (py_strip raw_url)"

text \<open>The body of the \<open>try\<close> block: the fetch, then the extraction from the final URL.\<close>

definition fetch_datetime :: "digit_table \<Rightarrow> network \<Rightarrow> nat \<Rightarrow> ustring \<Rightarrow> exn + datetime option" where
  "fetch_datetime dv net n url =
     ebind (net n url) (\<lambda>final_url. extract_datetime_from_string dv (PStr final_url))"

text \<open>
  \<open>except Exception\<close> catches every exception of the \<open>try\<close> block, so the result of the
  block is a timestamp or \<open>None\<close>.
\<close>

definition get_datetime_from_url ::
  "digit_table \<Rightarrow> network \<Rightarrow> pyval \<Rightarrow> resolver_state \<Rightarrow> datetime option \<times> resolver_state" where
  "get_datetime_from_url dv net raw_url st =
     (case raw_url of
        PStr r \<Rightarrow>
          if py_strip r = [] then (None, st)
          else
            let url = normalize_url r
            in (case url_datetime_cache st url of
                  Some cached \<Rightarrow> (cached, st)
                | None \<Rightarrow>
                    let dt_obj = (case fetch_datetime dv net (length (fetched st)) url of
                                    Inr found \<Rightarrow> found
                                  | Inl e \<Rightarrow> None)
                    in (dt_obj,
                        st\<lparr>url_datetime_cache := (url_datetime_cache st)(url \<mapsto> dt_obj),
                           fetched := fetched st @ [url]\<rparr>))
      | _ \<Rightarrow> (None, st))"

text \<open>A sequence of calls, each on the state the one before left.\<close>

fun calls :: "digit_table \<Rightarrow> network \<Rightarrow> pyval list \<Rightarrow> resolver_state \<Rightarrow> resolver_state" where
  "calls dv net [] st = st"
| "calls dv net (v # vs) st = calls dv net vs (snd (get_datetime_from_url dv net v st))"

text \<open>
  The normalization as the specification words it: trim, then remove one leading \<open>@\<close>
  if there is one.
\<close>

definition strip_one_at :: "ustring \<Rightarrow> ustring" where
  "strip_one_at raw_url =
     (case py_strip raw_url of
        [] \<Rightarrow> []
      | c # cs \<Rightarrow> if c = 64 then cs else c # cs)"

text \<open>
  The invariant of the resolver state: no URL was fetched twice, and the URLs fetched are
  the keys of the cache.
\<close>

definition fetch_once :: "resolver_state \<Rightarrow> bool" where
  "fetch_once st \<longleftrightarrow> distinct (fetched st) \<and> set (fetched st) = dom (url_datetime_cache st)"

text \<open>
  Two networks for concrete runs: one on which every fetch times out, and one that
  refuses the empty URL as \<open>requests\<close> does and otherwise redirects nowhere.
\<close>

definition failing_net :: network where
  "failing_net n url = Inl Timeout"

definition schema_net :: network where
  "schema_net n url = (if url = [] then Inl MissingSchema else Inr url)"

section \<open>Intervals\<close>

text \<open>
  \<open>str\<close> of a non-negative integer, and of an integer. The recursion peels the last
  decimal digit off.
\<close>

fun digits_of :: "nat \<Rightarrow> ustring" where
  "digits_of n = (if n < 10 then [48 + n] else digits_of (n div 10) @ [48 + n mod 10])"

declare digits_of.simps [simp del]

definition str_int :: "int \<Rightarrow> ustring" where
  "str_int i = (if i < 0 then 45 # digits_of (nat (- i)) else digits_of (nat i))"

text \<open>
  The labels, as code points of their Cyrillic letters: \<open>minutes_label\<close> is a space
  and the abbreviation of "minutes" (U+043C U+0438 U+043D), \<open>hours_label\<close> a space and
  the abbreviation of "hours" (U+0447), and \<open>error_label\<close> the Russian word for "error"
  (U+043E U+0448 U+0438 U+0431 U+043A U+0430).
\<close>

definition minutes_label :: ustring where
  "minutes_label = [32, 1084, 1080, 1085]"

definition hours_label :: ustring where
  "hours_label = [32, 1095]"

definition error_label :: ustring where
  "error_label = [1086, 1096, 1080, 1073, 1082, 1072]"

definition format_interval :: "int option \<Rightarrow> ustring" where
  "format_interval minutes =
     (case minutes of
        None \<Rightarrow> []
      | Some n \<Rightarrow>
          if n < 0 then error_label
          else if n < 60 then str_int n @ minutes_label
          else
            let hours = n div 60; mins = n mod 60
            in if mins = 0 then str_int hours @ hours_label
               else str_int hours @ hours_label @ [32] @ str_int mins @ minutes_label)"

text \<open>
  The difference of two timestamps. \<open>datetime.__sub__\<close> takes the difference of the
  proleptic Gregorian day numbers and of the seconds within the day, and \<open>timedelta\<close>
  normalizes the seconds into one day. The month of a \<open>datetime\<close> is in 1..12, which
  CPython asserts where the table is read.
\<close>

definition days_before_year :: "int \<Rightarrow> int" where
  "days_before_year y = (y - 1) * 365 + (y - 1) div 4 - (y - 1) div 100 + (y - 1) div 400"

definition DAYS_BEFORE_MONTH :: "int list" where
  "DAYS_BEFORE_MONTH = [- 1, 0, 31, 59, 90, 120, 151, 181, 212, 243, 273, 304, 334]"

definition days_before_month :: "int \<Rightarrow> int \<Rightarrow> int" where
  "days_before_month y m =
     (if 1 \<le> m \<and> m \<le> 12 then DAYS_BEFORE_MONTH ! nat m else 0)
     + (if m > 2 \<and> is_leap y then 1 else 0)"

definition toordinal :: "datetime \<Rightarrow> int" where
  "toordinal d = days_before_year (year d) + days_before_month (year d) (month d) + day d"

record timedelta =
  days :: int
  seconds :: int

definition datetime_sub :: "datetime \<Rightarrow> datetime \<Rightarrow> timedelta" where
  "datetime_sub a b =
     (let d = toordinal a - toordinal b;
          secs1 = second a + minute a * 60 + hour a * 3600;
          secs2 = second b + minute b * 60 + hour b * 3600;
          s = secs1 - secs2
      in \<lparr>days = d + s div 86400, seconds = s mod 86400\<rparr>)"

text \<open>
  \<open>total_seconds\<close> is a float in Python. The timestamps of this program have no
  microseconds and lie in the years 1 to 9999, so the value is an integer below
  \<open>2 ^ 53\<close>, the float holds it exactly, and \<open>int(delta.total_seconds() // 60)\<close> is
  the integer floor division.
\<close>

definition total_seconds :: "timedelta \<Rightarrow> int" where
  "total_seconds td = days td * 86400 + seconds td"

text \<open>
  What the loop of \<open>process_dataframe\<close> appends for one row to \<open>interval_minutes_raw\<close>
  and to \<open>interval_strs\<close>, from the two resolved timestamps.
\<close>

definition row_interval :: "datetime option \<Rightarrow> datetime option \<Rightarrow> int option \<times> ustring" where
  "row_interval dt_before dt_after =
     (case dt_before of
        None \<Rightarrow> (None, [])
      | Some b \<Rightarrow>
          (case dt_after of
             None \<Rightarrow> (None, [])
           | Some a \<Rightarrow>
               let delta = datetime_sub a b;
                   minutes = total_seconds delta div 60
               in if minutes < 0 then (None, error_label)
                  else (Some minutes, format_interval (Some minutes))))"

text \<open>
  The seconds from the start of day 0 of the calendar to a timestamp, for stating what
  the difference of two timestamps is.
\<close>

definition seconds_since_origin :: "datetime \<Rightarrow> int" where
  "seconds_since_origin d =
     toordinal d * 86400 + hour d * 3600 + minute d * 60 + second d"

section \<open>Data frames\<close>

text \<open>
  What the program reads of a \<open>DataFrame\<close>: the columns from left to right, each with
  its label, whether its dtype is \<open>object\<close> (\<open>pd.api.types.is_object_dtype\<close>, the dtype of
  a column that holds text) and its values from the first row to the last. The labels
  of a frame read from a spreadsheet are distinct and its columns have one length, so
  \<open>df[col]\<close> is the column with that label and the rows are its values side by side.
\<close>

record column =
  label :: pyval
  is_object :: bool
  cells :: "pyval list"

type_synonym dataframe = "column list"

text \<open>
  \<open>"%02d"\<close>-style padding, and \<open>str\<close> of a timestamp without microseconds:
  \<open>isoformat(sep=" ")\<close>, which writes the year in four digits.
\<close>

definition pad :: "nat \<Rightarrow> int \<Rightarrow> ustring" where
  "pad w n = replicate (w - length (str_int n)) 48 @ str_int n"

definition isoformat :: "datetime \<Rightarrow> ustring" where
  "isoformat d =
     pad 4 (year d) @ [45] @ pad 2 (month d) @ [45] @ pad 2 (day d) @ [32]
     @ pad 2 (hour d) @ [58] @ pad 2 (minute d) @ [58] @ pad 2 (second d)"

definition py_str :: "pyval \<Rightarrow> ustring" where
  "py_str v =
     (case v of
        PStr s \<Rightarrow> s
      | PInt i \<Rightarrow> str_int i
      | PNaN \<Rightarrow> ustr ''nan''
      | PNone \<Rightarrow> ustr ''None''
      | PDatetime d \<Rightarrow> isoformat d)"

text \<open>\<open>sub in s\<close>, which is what \<open>str.contains\<close> decides for a pattern of plain characters.\<close>

fun contains :: "ustring \<Rightarrow> ustring \<Rightarrow> bool" where
  "contains sub [] = (sub = [])"
| "contains sub (c # cs) = (take (length sub) (c # cs) = sub \<or> contains sub cs)"

section \<open>detect_photo_columns\<close>

text \<open>
  \<open>str.lower\<close> follows the case tables of Unicode, which are not part of the program:
  the detection takes the function as the parameter \<open>lower\<close>. \<open>lower_basic\<close> lowers the
  basic Latin and the Cyrillic capitals and serves the concrete runs.
\<close>

type_synonym lowercase = "ustring \<Rightarrow> ustring"

definition lower_basic :: lowercase where
  "lower_basic s =
     map (\<lambda>c. if 65 \<le> c \<and> c \<le> 90 then c + 32
              else if 1040 \<le> c \<and> c \<le> 1071 then c + 32
              else if 1024 \<le> c \<and> c \<le> 1039 then c + 80
              else c) s"

text \<open>
  The two header labels in lower case, as code points of their Cyrillic letters: the
  Russian for "photo before" and for "photo after".
\<close>

definition label_before :: ustring where
  "label_before = [1092, 1086, 1090, 1086, 32, 1076, 1086]"

definition label_after :: ustring where
  "label_after = [1092, 1086, 1090, 1086, 32, 1087, 1086, 1089, 1083, 1077]"

text \<open>\<open>str(c).strip().lower()\<close>\<close>

definition header_key :: "lowercase \<Rightarrow> pyval \<Rightarrow> ustring" where
  "header_key lower c = lower (py_strip (py_str c))"

text \<open>
  The dictionary comprehension over \<open>df.columns\<close>: a later column with the same key
  replaces an earlier one.
\<close>

definition cols_lower :: "lowercase \<Rightarrow> dataframe \<Rightarrow> (ustring \<rightharpoonup> pyval)" where
  "cols_lower lower df =
     foldl (\<lambda>m c. m(header_key lower (label c) \<mapsto> label c)) Map.empty df"

text \<open>\<open>series.astype(str).str.contains("saved-", na=False).any()\<close>\<close>

definition contains_saved :: "column \<Rightarrow> bool" where
  "contains_saved col = list_ex (\<lambda>v. contains (ustr ''saved-'') (py_str v)) (cells col)"

text \<open>
  The loop over the columns, with \<open>candidate_cols\<close> as accumulator: a column that is not
  of object dtype is skipped, and the loop breaks once two candidates are collected.
\<close>

fun scan_candidates :: "column list \<Rightarrow> pyval list \<Rightarrow> pyval list" where
  "scan_candidates [] candidate_cols = candidate_cols"
| "scan_candidates (col # rest) candidate_cols =
     (if \<not> is_object col then scan_candidates rest candidate_cols
      else
        let candidate_cols' =
              (if contains_saved col then candidate_cols @ [label col] else candidate_cols)
        in if length candidate_cols' \<ge> 2 then candidate_cols'
           else scan_candidates rest candidate_cols')"

definition detect_photo_columns :: "lowercase \<Rightarrow> dataframe \<Rightarrow> pyval option \<times> pyval option" where
  "detect_photo_columns lower df =
     (let before_col = cols_lower lower df label_before;
          after_col = cols_lower lower df label_after
      in if before_col \<noteq> None \<and> after_col \<noteq> None then (before_col, after_col)
         else
           let candidate_cols = scan_candidates df []
           in if length candidate_cols < 2 then (None, None)
              else (Some (candidate_cols ! 0), Some (candidate_cols ! 1)))"

text \<open>
  For the claims about the detection: a column matches a label when its header, trimmed
  and lowered, is the label; a column qualifies for the fallback when it is of object
  dtype and one of its values contains the marker.
\<close>

definition has_header :: "lowercase \<Rightarrow> ustring \<Rightarrow> column \<Rightarrow> bool" where
  "has_header lower lbl col \<longleftrightarrow> header_key lower (label col) = lbl"

definition qualifies :: "column \<Rightarrow> bool" where
  "qualifies col \<longleftrightarrow> is_object col \<and> contains_saved col"

text \<open>
  The same condition in the words of the specification, without the functions of the
  program: the column is of object dtype and the text of one of its values is some
  characters, the marker \<open>saved-\<close>, and some characters.
\<close>

definition textual_with_marker :: "column \<Rightarrow> bool" where
  "textual_with_marker col \<longleftrightarrow>
     is_object col
     \<and> (\<exists>v\<in>set (cells col). \<exists>pre post. py_str v = pre @ ustr ''saved-'' @ post)"

text \<open>
  Concrete frames for the runs: two headers that lower to the labels (with capitals and
  surrounding spaces), a text column whose second value holds the marker, a text column
  without the marker, a column of numbers, and two frames of such columns.
\<close>

definition photo_before :: pyval where
  "photo_before = PStr [32, 1060, 1086, 1090, 1086, 32, 1044, 1054]"

definition photo_after :: pyval where
  "photo_after = PStr [1060, 1086, 1090, 1086, 32, 1055, 1054, 1057, 1051, 1045, 32]"

definition saved_column :: "string \<Rightarrow> column" where
  "saved_column name =
     \<lparr>label = PStr (ustr name), is_object = True,
      cells = [PNaN, PStr (ustr ''https://h/saved-20240101_100000.jpg'')]\<rparr>"

definition text_column :: "string \<Rightarrow> column" where
  "text_column name =
     \<lparr>label = PStr (ustr name), is_object = True,
      cells = [PStr (ustr ''https://h/save-d.jpg''), PStr (ustr ''saved'')]\<rparr>"

definition number_column :: "pyval \<Rightarrow> column" where
  "number_column lbl = \<lparr>label = lbl, is_object = False, cells = [PInt 1, PInt 2]\<rparr>"

definition headed_frame :: dataframe where
  "headed_frame =
     [saved_column ''a'', number_column photo_after, saved_column ''b'',
      number_column photo_before]"

definition unheaded_frame :: dataframe where
  "unheaded_frame =
     [number_column photo_before, text_column ''t'', saved_column ''a'',
      number_column (PInt 7), text_column ''u'', saved_column ''b'', saved_column ''c'']"

section \<open>process_dataframe\<close>

text \<open>
  After \<open>df.copy()\<close> the loop reads the two photo columns by their labels, so the
  working frame is the list of the labels with their values. \<open>column_of\<close> is
  \<open>df[lbl]\<close>; the two labels looked up are columns of the frame, so the \<open>KeyError\<close> of
  a missing label does not arise and the empty list stands for it.
\<close>

type_synonym frame = "(pyval \<times> pyval list) list"

definition frame_of :: "dataframe \<Rightarrow> frame" where
  "frame_of df = map (\<lambda>c. (label c, cells c)) df"

definition column_of :: "frame \<Rightarrow> pyval \<Rightarrow> pyval list" where
  "column_of fr lbl = (case map_of fr lbl of Some vs \<Rightarrow> vs | None \<Rightarrow> [])"

text \<open>The message of the \<open>ValueError\<close> that reports a failed detection, as code points.\<close>

definition detection_message :: ustring where
  "detection_message =
     [1053, 1077, 32, 1085, 1072, 1081, 1076, 1077, 1085, 1099, 32, 1076, 1074, 1072, 32,
      1089, 1090, 1086, 1083, 1073, 1094, 1072, 32, 1089, 1086, 32, 1089, 1089, 1099, 1083,
      1082, 1072, 1084, 1080, 32, 1085, 1072, 32, 1092, 1086, 1090, 1086, 32, 40, 1089, 1090,
      1086, 1083, 1073, 1094, 1099, 32, 39, 1060, 1086, 1090, 1086, 32, 1044, 1054, 39, 32,
      1080, 32, 39, 1060, 1086, 1090, 1086, 32, 1055, 1054, 1057, 1051, 1045, 39, 41, 46]"

text \<open>
  The loop over the rows. A row is the pair of the values of the two photo columns; the
  result holds, row by row, what the loop appends to its four lists, and the state of the
  resolver after the last row.
\<close>

record derived =
  before_date :: "datetime option"
  after_date :: "datetime option"
  minutes_raw :: "int option"
  interval_str :: ustring

fun process_rows ::
  "digit_table \<Rightarrow> network \<Rightarrow> (pyval \<times> pyval) list \<Rightarrow> resolver_state
     \<Rightarrow> derived list \<times> resolver_state" where
  "process_rows dv net [] st = ([], st)"
| "process_rows dv net ((before_val, after_val) # rest) st =
     (let r1 = get_datetime_from_url dv net before_val st;
          r2 = get_datetime_from_url dv net after_val (snd r1);
          iv = row_interval (fst r1) (fst r2);
          out = process_rows dv net rest (snd r2)
      in (\<lparr>before_date = fst r1, after_date = fst r2, minutes_raw = fst iv, interval_str = snd iv\<rparr>
            # fst out,
          snd out))"

text \<open>
  \<open>process_dataframe\<close> from the detection to the end of the loop: the \<open>ValueError\<close> of a
  failed detection, or the two detected labels with the four lists the loop has built.
  What the function does next, handing the lists to pandas as new columns and cutting
  the preview, depends on how pandas stores such lists and is not part of this
  definition; the section on the preview models the part of it that formats the
  timestamps.
\<close>

record loop_result =
  out_before_col :: pyval
  out_after_col :: pyval
  out_rows :: "derived list"

definition process_dataframe ::
  "lowercase \<Rightarrow> digit_table \<Rightarrow> network \<Rightarrow> dataframe \<Rightarrow> resolver_state
     \<Rightarrow> ((exn \<times> ustring) + loop_result) \<times> resolver_state" where
  "process_dataframe lower dv net df st =
     (case detect_photo_columns lower df of
        (None, after_col) \<Rightarrow> (Inl (ValueError, detection_message), st)
      | (Some before_col, None) \<Rightarrow> (Inl (ValueError, detection_message), st)
      | (Some before_col, Some after_col) \<Rightarrow>
          let fr = frame_of df;
              out = process_rows dv net
                      (zip (column_of fr before_col) (column_of fr after_col)) st
          in (Inr \<lparr>out_before_col = before_col, out_after_col = after_col,
                    out_rows = fst out\<rparr>,
              snd out))"

section \<open>The preview of the timestamps\<close>

text \<open>
  The list \<open>before_dates\<close> (and likewise \<open>after_dates\<close>) becomes a column of the frame
  by \<open>df[col] = before_dates\<close>, and pandas chooses how to store it. A list of \<open>None\<close>
  only stays a column of objects. A list with a timestamp becomes a column of dtype
  \<open>datetime64[ns]\<close>: its values are \<open>Timestamp\<close> for the timestamps and \<open>NaT\<close> where
  the list has \<open>None\<close>. A timestamp outside the years 1678 to 2261 does not fit that
  dtype in full; what pandas does with it depends on its version and is not modelled:
  \<open>store_dates\<close> is \<open>None\<close> there.
\<close>

datatype stored_date = Timestamp datetime | NaT | NoneObject

definition store_dates :: "datetime option list \<Rightarrow> stored_date list option" where
  "store_dates ds =
     (if list_all (\<lambda>d. d = None) ds then Some (map (\<lambda>d. NoneObject) ds)
      else if list_all (\<lambda>d. case d of None \<Rightarrow> True
                              | Some t \<Rightarrow> 1678 \<le> year t \<and> year t \<le> 2261) ds
      then Some (map (\<lambda>d. case d of None \<Rightarrow> NaT | Some t \<Rightarrow> Timestamp t) ds)
      else None)"

text \<open>
  \<open>strftime("%Y-%m-%d %H:%M:%S")\<close>. The C library writes \<open>%Y\<close> without leading
  zeros; the years of a \<open>Timestamp\<close> have four digits.
\<close>

definition strftime :: "datetime \<Rightarrow> ustring" where
  "strftime d =
     str_int (year d) @ [45] @ pad 2 (month d) @ [45] @ pad 2 (day d) @ [32]
     @ pad 2 (hour d) @ [58] @ pad 2 (minute d) @ [58] @ pad 2 (second d)"

text \<open>
  The function of the preview,
  \<open>lambda x: x.strftime("%Y-%m-%d %H:%M:%S") if isinstance(x, dt.datetime) else ""\<close>,
  on a stored value. \<open>Timestamp\<close> and the type of \<open>NaT\<close> are both subclasses of
  \<open>datetime\<close>, so \<open>strftime\<close> is called on either, and on \<open>NaT\<close> it raises
  \<open>ValueError\<close>; \<open>None\<close> is not a \<open>datetime\<close> and gives the empty string.
\<close>

definition format_date :: "stored_date \<Rightarrow> exn + ustring" where
  "format_date x =
     (case x of
        Timestamp t \<Rightarrow> Inr (strftime t)
      | NaT \<Rightarrow> Inl ValueError
      | NoneObject \<Rightarrow> Inr [])"

text \<open>
  \<open>Series.apply\<close> calls the function on the values in their order; the first exception
  ends it.
\<close>

fun apply_series :: "('a \<Rightarrow> exn + 'b) \<Rightarrow> 'a list \<Rightarrow> exn + 'b list" where
  "apply_series f [] = Inr []"
| "apply_series f (x # xs) =
     ebind (f x) (\<lambda>y. ebind (apply_series f xs) (\<lambda>ys. Inr (y # ys)))"

text \<open>
  What the preview makes of one list of the loop: the column as stored, its first 15
  rows (\<open>head(15)\<close>), the function applied to them. The result is the strings shown or
  the exception raised, and \<open>None\<close> where the storage is not modelled.
\<close>

definition preview_dates :: "datetime option list \<Rightarrow> (exn + ustring list) option" where
  "preview_dates ds =
     (case store_dates ds of
        None \<Rightarrow> None
      | Some col \<Rightarrow> Some (apply_series format_date (take 15 col)))"

text \<open>
  A frame for a run of the pipeline: three rows whose photo links resolve 45 minutes
  apart, with the before-link missing, and in the wrong order; and the two timestamps
  of the links.
\<close>

definition url_1000 :: pyval where
  "url_1000 = PStr (ustr ''https://h/saved-20240101_100000.jpg'')"

definition url_1045 :: pyval where
  "url_1045 = PStr (ustr ''https://h/saved-20240101_104500.jpg'')"

definition photo_frame :: dataframe where
  "photo_frame =
     [\<lparr>label = photo_before, is_object = True, cells = [url_1000, PNaN, url_1045]\<rparr>,
      \<lparr>label = PStr (ustr ''n''), is_object = False, cells = [PInt 1, PInt 2, PInt 3]\<rparr>,
      \<lparr>label = photo_after, is_object = True, cells = [url_1045, url_1045, url_1000]\<rparr>]"

definition time_1000 :: datetime where
  "time_1000 = \<lparr>year = 2024, month = 1, day = 1, hour = 10, minute = 0, second = 0\<rparr>"

definition time_1045 :: datetime where
  "time_1045 = \<lparr>year = 2024, month = 1, day = 1, hour = 10, minute = 45, second = 0\<rparr>"


section \<open>Properties of extract_datetime_from_string\<close>

lemma ustr_saved: "ustr ''saved-'' = [115, 97, 118, 101, 100, 45]"
  by (simp add: ustr_def)

lemma ustr_underscore: "ustr ''_'' = [95]"
  by (simp add: ustr_def)

lemma match_here_pattern:
  "match_here dv (drop i s) =
     (if pattern_at dv s i then Some (take 8 (drop (i + 6) s), take 6 (drop (i + 15) s)) else None)"
proof -
  let ?r = "drop i s"
  have a: "take 6 (take 21 ?r) = take 6 ?r" by simp
  have b: "take 8 (drop 6 (take 21 ?r)) = take 8 (drop 6 ?r)" by (simp add: drop_take)
  have c: "drop 15 (take 21 ?r) = take 6 (drop 15 ?r)" by (simp add: drop_take)
  have d: "length (take 21 ?r) = 21 \<Longrightarrow> take 21 ?r ! 14 = ?r ! 14 \<and> take 1 (drop 14 ?r) = [?r ! 14]"
    by (simp add: take_Suc_conv_app_nth add.commute)
  have e: "length (take 21 ?r) = 21 \<longleftrightarrow> 21 \<le> length ?r" by auto
  show ?thesis
    unfolding match_here_def pattern_at_def Let_def a b c ustr_underscore
    using d e
    by (auto simp add: add.commute)
qed

lemma pattern_at_Cons: "pattern_at dv (c # cs) (Suc i) = pattern_at dv cs i"
  by (simp add: pattern_at_def)

lemma match_here_0:
  "match_here dv s =
     (if pattern_at dv s 0 then Some (take 8 (drop 6 s), take 6 (drop 15 s)) else None)"
  using match_here_pattern [of dv 0 s] by simp

lemma re_search_None: "(\<forall>i. \<not> pattern_at dv s i) \<Longrightarrow> re_search dv s = None"
proof (induction s)
  case Nil
  then show ?case by (simp add: match_here_0)
next
  case (Cons c cs)
  have "\<forall>i. \<not> pattern_at dv cs i"
    using Cons.prems pattern_at_Cons [of dv c cs] by blast
  then have "re_search dv cs = None" by (rule Cons.IH)
  moreover have "match_here dv (c # cs) = None"
    using Cons.prems by (simp add: match_here_0)
  ultimately show ?case by simp
qed

lemma re_search_first:
  "pattern_at dv s i \<Longrightarrow> (\<forall>j<i. \<not> pattern_at dv s j) \<Longrightarrow>
   re_search dv s = Some (take 8 (drop (i + 6) s), take 6 (drop (i + 15) s))"
proof (induction s arbitrary: i)
  case Nil
  then show ?case by (simp add: pattern_at_def)
next
  case (Cons c cs)
  show ?case
  proof (cases i)
    case 0
    then show ?thesis using Cons.prems(1) by (simp add: match_here_0)
  next
    case (Suc k)
    have here: "match_here dv (c # cs) = None"
      using Cons.prems(2) Suc by (simp add: match_here_0)
    have pk: "pattern_at dv cs k"
      using Cons.prems(1) Suc by (simp add: pattern_at_Cons)
    have "\<forall>j<k. \<not> pattern_at dv cs j"
    proof (intro allI impI)
      fix j assume "j < k"
      then have "Suc j < i" using Suc by simp
      then have "\<not> pattern_at dv (c # cs) (Suc j)" using Cons.prems(2) by blast
      then show "\<not> pattern_at dv cs j" by (simp add: pattern_at_Cons)
    qed
    then have "re_search dv cs = Some (take 8 (drop (k + 6) cs), take 6 (drop (k + 15) cs))"
      using pk Cons.IH by blast
    moreover have "drop (i + 6) (c # cs) = drop (k + 6) cs"
      unfolding Suc by (metis add_Suc drop_Suc_Cons)
    moreover have "drop (i + 15) (c # cs) = drop (k + 15) cs"
      unfolding Suc by (metis add_Suc drop_Suc_Cons)
    ultimately show ?thesis using here by simp
  qed
qed

lemma int_digits_decimal:
  "list_all (is_decimal dv) w \<Longrightarrow>
   int_digits dv acc w =
     Inr (foldl (\<lambda>a c. 10 * a + (case dv c of Some d \<Rightarrow> int d | None \<Rightarrow> 0)) acc w)"
  by (induction w arbitrary: acc) (auto simp add: is_decimal_def)

lemma py_int_decimal:
  "list_all (is_decimal dv) w \<Longrightarrow> w \<noteq> [] \<Longrightarrow> py_int dv w = Inr (decimal_number dv w)"
  by (simp add: py_int_def decimal_number_def int_digits_decimal)

lemma py_int_field:
  assumes "list_all (is_decimal dv) (take m (drop k s))" "k + m \<le> length s"
    and "a < b" "b \<le> m"
  shows "py_int dv (py_slice (take m (drop k s)) a b) = Inr (field dv s (k + a) (b - a))"
proof -
  have eq: "py_slice (take m (drop k s)) a b = take (b - a) (drop (k + a) s)"
    using assms(3,4) by (simp add: py_slice_def drop_take min_def add.commute)
  have "set (take (b - a) (drop (k + a) s)) \<subseteq> set (take m (drop k s))"
    unfolding eq [symmetric] py_slice_def
    by (meson set_drop_subset set_take_subset subset_trans)
  then have "list_all (is_decimal dv) (take (b - a) (drop (k + a) s))"
    using assms(1) by (auto simp add: list_all_iff)
  moreover have "take (b - a) (drop (k + a) s) \<noteq> []"
    using assms by auto
  ultimately show ?thesis
    unfolding eq field_def by (rule py_int_decimal)
qed

lemma pattern_at_facts:
  assumes "pattern_at dv s i"
  shows "i + 21 \<le> length s"
    and "list_all (is_decimal dv) (take 8 (drop (i + 6) s))"
    and "list_all (is_decimal dv) (take 6 (drop (i + 15) s))"
proof -
  have len: "length (take 21 (drop i s)) = 21"
    using assms by (simp add: pattern_at_def Let_def)
  then show "i + 21 \<le> length s" by auto
  have "take 8 (drop 6 (take 21 (drop i s))) = take 8 (drop (i + 6) s)"
    by (simp add: drop_take add.commute)
  then show "list_all (is_decimal dv) (take 8 (drop (i + 6) s))"
    using assms by (simp add: pattern_at_def Let_def)
  have "drop 15 (take 21 (drop i s)) = take 6 (drop (i + 15) s)"
    by (simp add: drop_take add.commute)
  then show "list_all (is_decimal dv) (take 6 (drop (i + 15) s))"
    using assms by (simp add: pattern_at_def Let_def)
qed

lemma parse_parts_pattern:
  assumes "pattern_at dv s i"
  shows "parse_parts dv (take 8 (drop (i + 6) s)) (take 6 (drop (i + 15) s)) =
     datetime_new (field dv s (i + 6) 4) (field dv s (i + 10) 2) (field dv s (i + 12) 2)
       (field dv s (i + 15) 2) (field dv s (i + 17) 2) (field dv s (i + 19) 2)"
proof -
  note f = pattern_at_facts [OF assms]
  have l1: "i + 6 + 8 \<le> length s" and l2: "i + 15 + 6 \<le> length s"
    using f(1) by simp_all
  have y: "py_int dv (py_slice (take 8 (drop (i + 6) s)) 0 4) = Inr (field dv s (i + 6) 4)"
    using py_int_field [OF f(2) l1, of 0 4] by simp
  have m: "py_int dv (py_slice (take 8 (drop (i + 6) s)) 4 6) = Inr (field dv s (i + 10) 2)"
    using py_int_field [OF f(2) l1, of 4 6] by (simp add: ac_simps)
  have d: "py_int dv (py_slice (take 8 (drop (i + 6) s)) 6 8) = Inr (field dv s (i + 12) 2)"
    using py_int_field [OF f(2) l1, of 6 8] by (simp add: ac_simps)
  have hh: "py_int dv (py_slice (take 6 (drop (i + 15) s)) 0 2) = Inr (field dv s (i + 15) 2)"
    using py_int_field [OF f(3) l2, of 0 2] by simp
  have mm: "py_int dv (py_slice (take 6 (drop (i + 15) s)) 2 4) = Inr (field dv s (i + 17) 2)"
    using py_int_field [OF f(3) l2, of 2 4] by (simp add: ac_simps)
  have ss: "py_int dv (py_slice (take 6 (drop (i + 15) s)) 4 6) = Inr (field dv s (i + 19) 2)"
    using py_int_field [OF f(3) l2, of 4 6] by (simp add: ac_simps)
  show ?thesis
    unfolding parse_parts_def y m d hh mm ss by (simp add: ebind_def)
qed

lemma extract_first_match:
  assumes "pattern_at dv s i" "\<forall>j<i. \<not> pattern_at dv s j"
  shows "extract_datetime_from_string dv (PStr s) = Inr (encoded_timestamp dv s i)"
proof -
  have "re_search dv s = Some (take 8 (drop (i + 6) s), take 6 (drop (i + 15) s))"
    using assms by (rule re_search_first)
  then show ?thesis
    by (simp add: extract_datetime_from_string_def parse_parts_pattern [OF assms(1)]
        datetime_new_def encoded_timestamp_def Let_def)
qed

lemma extract_no_match:
  "(\<forall>i. \<not> pattern_at dv s i) \<Longrightarrow> extract_datetime_from_string dv (PStr s) = Inr None"
  by (simp add: extract_datetime_from_string_def re_search_None)

lemma extract_not_str:
  "(\<forall>s. v \<noteq> PStr s) \<Longrightarrow> extract_datetime_from_string dv v = Inr None"
  by (cases v) (simp_all add: extract_datetime_from_string_def)

lemma extract_returns: "\<exists>r. extract_datetime_from_string dv v = Inr r"
proof (cases "\<exists>s. v = PStr s")
  case False
  then show ?thesis using extract_not_str [of v dv] by blast
next
  case True
  then obtain s where v: "v = PStr s" by blast
  show ?thesis
  proof (cases "\<exists>i. pattern_at dv s i")
    case False
    then show ?thesis using extract_no_match [of dv s] v by blast
  next
    case True
    then obtain i where "pattern_at dv s i" by blast
    then have "pattern_at dv s (LEAST k. pattern_at dv s k)"
      and "\<forall>j<(LEAST k. pattern_at dv s k). \<not> pattern_at dv s j"
      using LeastI [of "pattern_at dv s" i] not_less_Least [of _ "pattern_at dv s"] by blast+
    then show ?thesis using extract_first_match v by blast
  qed
qed

lemma all_less_2: "(\<forall>j<(2::nat). P j) \<longleftrightarrow> P 0 \<and> P 1"
  by (auto simp add: numeral_2_eq_2 less_Suc_eq)

lemma ascii_digits_simps [simp]:
  "ascii_digits 48 = Some 0" "ascii_digits 49 = Some 1" "ascii_digits 50 = Some 2"
  "ascii_digits 51 = Some 3" "ascii_digits 52 = Some 4" "ascii_digits 53 = Some 5"
  "ascii_digits 54 = Some 6" "ascii_digits 55 = Some 7" "ascii_digits 56 = Some 8"
  "ascii_digits 57 = Some 9"
  by (simp_all add: ascii_digits_def)

text \<open>
  Claim C1. \<open>extract_datetime_from_string\<close> returns absence for every input that is
  not a string and for every string in which the pattern occurs nowhere. For a string in
  which the pattern occurs, the leftmost occurrence alone decides: the result is the
  timestamp its digits encode when they form a valid calendar date and time, and absence
  when they do not (\<open>encoded_timestamp\<close>). Every call returns; none raises.
\<close>

theorem extract_datetime_from_string_spec:
  "((\<forall>s. v \<noteq> PStr s) \<longrightarrow> extract_datetime_from_string dv v = Inr None)
   \<and> ((\<forall>i. \<not> pattern_at dv s i) \<longrightarrow> extract_datetime_from_string dv (PStr s) = Inr None)
   \<and> (pattern_at dv s i \<and> (\<forall>j<i. \<not> pattern_at dv s j) \<longrightarrow>
        extract_datetime_from_string dv (PStr s) = Inr (encoded_timestamp dv s i))
   \<and> (\<exists>r. extract_datetime_from_string dv v = Inr r)"
  using extract_not_str [of v dv] extract_no_match [of dv s] extract_first_match [of dv s i]
    extract_returns [of dv v]
  by blast

theorem extract_datetime_from_string_spec_witness:
  "extract_datetime_from_string ascii_digits (PInt 20240101) = Inr None
   \<and> extract_datetime_from_string ascii_digits (PStr (ustr ''https://x/y.jpg'')) = Inr None
   \<and> extract_datetime_from_string ascii_digits
         (PStr (ustr ''x/saved-20240229_104500.jpg?saved-20250101_000000'')) =
       Inr (Some \<lparr>year = 2024, month = 2, day = 29, hour = 10, minute = 45, second = 0\<rparr>)
   \<and> extract_datetime_from_string ascii_digits
         (PStr (ustr ''x/saved-20241301_104500.jpg?saved-20250101_000000'')) = Inr None"
proof -
  let ?a = "ustr ''https://x/y.jpg''"
  let ?b = "ustr ''x/saved-20240229_104500.jpg?saved-20250101_000000''"
  let ?c = "ustr ''x/saved-20241301_104500.jpg?saved-20250101_000000''"
  have h1: "\<forall>s. PInt 20240101 \<noteq> PStr s" by simp
  have "length ?a = 15" by (simp add: ustr_def)
  then have h2: "\<forall>i. \<not> pattern_at ascii_digits ?a i"
    by (auto simp add: pattern_at_def Let_def)
  have h3: "pattern_at ascii_digits ?b 2 \<and> (\<forall>j<2. \<not> pattern_at ascii_digits ?b j)"
    unfolding all_less_2 by (simp add: pattern_at_def ustr_def is_decimal_def)
  have h4: "pattern_at ascii_digits ?c 2 \<and> (\<forall>j<2. \<not> pattern_at ascii_digits ?c j)"
    unfolding all_less_2 by (simp add: pattern_at_def ustr_def is_decimal_def)
  have e3: "encoded_timestamp ascii_digits ?b 2 =
      Some \<lparr>year = 2024, month = 2, day = 29, hour = 10, minute = 45, second = 0\<rparr>"
    by (simp add: encoded_timestamp_def field_def decimal_number_def ustr_def valid_datetime_def
        days_in_month_def is_leap_def)
  have e4: "encoded_timestamp ascii_digits ?c 2 = None"
    by (simp add: encoded_timestamp_def field_def decimal_number_def ustr_def valid_datetime_def
        days_in_month_def is_leap_def)
  show ?thesis
    using extract_datetime_from_string_spec [of "PInt 20240101" ascii_digits ?a 0]
      extract_datetime_from_string_spec [of PNone ascii_digits ?b 2]
      extract_datetime_from_string_spec [of PNone ascii_digits ?c 2]
      h1 h2 h3 h4 e3 e4
    by simp
qed

section \<open>Properties of the interval computation\<close>

lemma total_seconds_datetime_sub:
  "total_seconds (datetime_sub a b) = seconds_since_origin a - seconds_since_origin b"
proof -
  define s where "s = (second a + minute a * 60 + hour a * 3600) - (second b + minute b * 60 + hour b * 3600)"
  have "(s div 86400) * 86400 + s mod 86400 = s" by simp
  then have "(toordinal a - toordinal b + s div 86400) * 86400 + s mod 86400
      = (toordinal a - toordinal b) * 86400 + s"
    by (simp add: algebra_simps)
  then show ?thesis
    by (simp add: total_seconds_def datetime_sub_def Let_def seconds_since_origin_def s_def
        algebra_simps)
qed

lemma str_int_45: "str_int 45 = [52, 53]"
  by (simp add: str_int_def digits_of.simps)

lemma str_int_1: "str_int 1 = [49]"
  by (simp add: str_int_def digits_of.simps)

lemma str_int_25: "str_int 25 = [50, 53]"
  by (simp add: str_int_def digits_of.simps)

lemma seconds_since_origin_simp:
  "seconds_since_origin \<lparr>year = y, month = m, day = d, hour = hh, minute = mm, second = ss\<rparr> =
     (days_before_year y + days_before_month y m + d) * 86400 + hh * 3600 + mm * 60 + ss"
  by (simp add: seconds_since_origin_def toordinal_def)

text \<open>
  Claim C2. When a timestamp is absent the row gets no minutes and the empty label. When
  both are present, the minutes are the seconds from the before-timestamp to the
  after-timestamp, floor-divided by 60; a negative count gives no minutes and the error
  label; a count \<open>n\<close> below 60 is labelled with \<open>n\<close> and the minutes label, a
  multiple of 60 with the hours \<open>h\<close> and the hours label, and any other count with \<open>h\<close>,
  the hours label, a space, the remaining minutes \<open>m\<close> and the minutes label.
\<close>

theorem row_interval_spec:
  "row_interval None dt_after = (None, [])
   \<and> row_interval dt_before None = (None, [])
   \<and> row_interval (Some b) (Some a) =
       (let n = (seconds_since_origin a - seconds_since_origin b) div 60
        in if n < 0 then (None, error_label)
           else if n < 60 then (Some n, str_int n @ minutes_label)
           else if n mod 60 = 0 then (Some n, str_int (n div 60) @ hours_label)
           else (Some n,
                 str_int (n div 60) @ hours_label @ [32] @ str_int (n mod 60) @ minutes_label))"
proof -
  have "row_interval None dt_after = (None, [])"
    by (simp add: row_interval_def)
  moreover have "row_interval dt_before None = (None, [])"
    by (cases dt_before) (simp_all add: row_interval_def)
  moreover have "row_interval (Some b) (Some a) =
       (let n = (seconds_since_origin a - seconds_since_origin b) div 60
        in if n < 0 then (None, error_label)
           else if n < 60 then (Some n, str_int n @ minutes_label)
           else if n mod 60 = 0 then (Some n, str_int (n div 60) @ hours_label)
           else (Some n,
                 str_int (n div 60) @ hours_label @ [32] @ str_int (n mod 60) @ minutes_label))"
    by (simp add: row_interval_def format_interval_def total_seconds_datetime_sub Let_def)
  ultimately show ?thesis by blast
qed

theorem row_interval_spec_witness:
  "row_interval None (Some \<lparr>year = 2024, month = 1, day = 1, hour = 10, minute = 0, second = 0\<rparr>)
     = (None, [])
   \<and> row_interval (Some \<lparr>year = 2024, month = 1, day = 1, hour = 10, minute = 0, second = 0\<rparr>) None
     = (None, [])
   \<and> row_interval (Some \<lparr>year = 2024, month = 1, day = 1, hour = 10, minute = 0, second = 0\<rparr>)
        (Some \<lparr>year = 2024, month = 1, day = 1, hour = 10, minute = 45, second = 0\<rparr>)
     = (Some 45, [52, 53, 32, 1084, 1080, 1085])
   \<and> row_interval (Some \<lparr>year = 2024, month = 1, day = 1, hour = 10, minute = 0, second = 0\<rparr>)
        (Some \<lparr>year = 2024, month = 1, day = 1, hour = 11, minute = 25, second = 0\<rparr>)
     = (Some 85, [49, 32, 1095, 32, 50, 53, 32, 1084, 1080, 1085])
   \<and> row_interval (Some \<lparr>year = 2024, month = 1, day = 1, hour = 11, minute = 0, second = 0\<rparr>)
        (Some \<lparr>year = 2024, month = 1, day = 1, hour = 10, minute = 0, second = 0\<rparr>)
     = (None, [1086, 1096, 1080, 1073, 1082, 1072])"
proof -
  let ?t1000 = "\<lparr>year = 2024, month = 1, day = 1, hour = 10, minute = 0, second = 0\<rparr>"
  let ?t1045 = "\<lparr>year = 2024, month = 1, day = 1, hour = 10, minute = 45, second = 0\<rparr>"
  let ?t1100 = "\<lparr>year = 2024, month = 1, day = 1, hour = 11, minute = 0, second = 0\<rparr>"
  let ?t1125 = "\<lparr>year = 2024, month = 1, day = 1, hour = 11, minute = 25, second = 0\<rparr>"
  have d1: "(seconds_since_origin ?t1045 - seconds_since_origin ?t1000) div 60 = 45"
    by (simp add: seconds_since_origin_simp)
  have d2: "(seconds_since_origin ?t1125 - seconds_since_origin ?t1000) div 60 = 85"
    by (simp add: seconds_since_origin_simp)
  have d3: "(seconds_since_origin ?t1000 - seconds_since_origin ?t1100) div 60 = - 60"
    by (simp add: seconds_since_origin_simp)
  show ?thesis
    using row_interval_spec [of "Some ?t1000" "Some ?t1000" ?t1000 ?t1045]
      row_interval_spec [of "Some ?t1000" "Some ?t1000" ?t1000 ?t1125]
      row_interval_spec [of "Some ?t1000" "Some ?t1000" ?t1100 ?t1000]
    unfolding d1 d2 d3 Let_def
    by (simp add: str_int_45 str_int_1 str_int_25 minutes_label_def hours_label_def
        error_label_def)
qed

section \<open>Properties of the normalization\<close>

lemma ustr_at: "ustr ''@'' = [64]"
  by (simp add: ustr_def)

lemma normalize_url_dropWhile:
  "normalize_url raw_url = dropWhile (\<lambda>c. c = 64) (py_strip raw_url)"
  by (simp add: normalize_url_def py_lstrip_def ustr_at)

lemma py_strip_decompose:
  "\<exists>pre post. raw_url = pre @ py_strip raw_url @ post
     \<and> list_all isspace pre \<and> list_all isspace post"
proof -
  let ?l = "dropWhile isspace raw_url"
  have a: "raw_url = takeWhile isspace raw_url @ ?l" by simp
  have b: "rev ?l = takeWhile isspace (rev ?l) @ dropWhile isspace (rev ?l)" by simp
  have "?l = rev (dropWhile isspace (rev ?l)) @ rev (takeWhile isspace (rev ?l))"
    by (metis b rev_append rev_rev_ident)
  then have c: "?l = py_strip raw_url @ rev (takeWhile isspace (rev ?l))"
    by (simp add: py_strip_def)
  have "raw_url = takeWhile isspace raw_url @ py_strip raw_url @ rev (takeWhile isspace (rev ?l))"
    using a c by metis
  moreover have "list_all isspace (takeWhile isspace raw_url)"
    by (simp add: list_all_iff) (meson set_takeWhileD)
  moreover have "list_all isspace (rev (takeWhile isspace (rev ?l)))"
    by (simp add: list_all_iff) (meson set_takeWhileD)
  ultimately show ?thesis by blast
qed

lemma py_strip_ends:
  "py_strip raw_url \<noteq> [] \<Longrightarrow>
     \<not> isspace (hd (py_strip raw_url)) \<and> \<not> isspace (last (py_strip raw_url))"
proof -
  assume ne: "py_strip raw_url \<noteq> []"
  let ?l = "dropWhile isspace raw_url"
  let ?r = "dropWhile isspace (rev ?l)"
  have r: "?r \<noteq> []" using ne by (simp add: py_strip_def)
  then have "\<not> isspace (hd ?r)" by (rule hd_dropWhile)
  then have l: "\<not> isspace (last (py_strip raw_url))"
    using r by (simp add: py_strip_def last_rev)
  have lne: "?l \<noteq> []"
  proof
    assume "?l = []"
    then have "?r = []" by (simp only: rev.simps dropWhile.simps)
    with r show False by simp
  qed
  then have hl: "\<not> isspace (hd ?l)" by (rule hd_dropWhile)
  have "\<exists>t. ?l = py_strip raw_url @ t"
    by (metis py_strip_def rev_append rev_rev_ident takeWhile_dropWhile_id)
  then have "hd (py_strip raw_url) = hd ?l" using ne by auto
  then show ?thesis using hl l by simp
qed

lemma normalize_url_decompose:
  "\<exists>k. py_strip raw_url = replicate k 64 @ normalize_url raw_url"
proof -
  have "py_strip raw_url = takeWhile (\<lambda>c. c = 64) (py_strip raw_url) @ normalize_url raw_url"
    by (simp add: normalize_url_dropWhile)
  moreover have "takeWhile (\<lambda>c. c = 64) (py_strip raw_url)
      = replicate (length (takeWhile (\<lambda>c. c = 64) (py_strip raw_url))) 64"
    by (rule replicate_length_same [symmetric]) (meson set_takeWhileD)
  ultimately show ?thesis by metis
qed

lemma normalize_url_no_at:
  "normalize_url raw_url = [] \<or> hd (normalize_url raw_url) \<noteq> 64"
  using hd_dropWhile [of "\<lambda>c. c = 64" "py_strip raw_url"]
  by (auto simp add: normalize_url_dropWhile)

lemma isspace_simps [simp]: "isspace 32" "\<not> isspace 64" "\<not> isspace 104" "\<not> isspace 121"
  by (simp_all add: isspace_def)

lemma normalize_url_example: "normalize_url (ustr ''  @https://x/y  '') = ustr ''https://x/y''"
  by (simp add: normalize_url_dropWhile py_strip_def ustr_def)

lemma normalize_url_example2: "normalize_url (ustr ''@@https://x/y'') = ustr ''https://x/y''"
  by (simp add: normalize_url_dropWhile py_strip_def ustr_def)

text \<open>
  Claim C4, as stated, fails: \<open>lstrip("@")\<close> removes every leading \<open>@\<close>, not one. Of
  \<open>@@https://x/y\<close> the program keeps \<open>https://x/y\<close>, where removing one character
  would keep \<open>@https://x/y\<close>.
\<close>

theorem normalize_url_one_at_counterexample:
  "py_strip (ustr ''@@https://x/y'') \<noteq> []
   \<and> normalize_url (ustr ''@@https://x/y'') = ustr ''https://x/y''
   \<and> strip_one_at (ustr ''@@https://x/y'') = ustr ''@https://x/y''
   \<and> normalize_url (ustr ''@@https://x/y'') \<noteq> strip_one_at (ustr ''@@https://x/y'')"
  by (simp add: normalize_url_dropWhile strip_one_at_def py_strip_def ustr_def)

text \<open>
  Claim C4, amended. The normalization trims the surrounding whitespace and then removes
  every leading \<open>@\<close>: the raw value is whitespace, a run of \<open>@\<close>, the normalized string
  and whitespace again, the trimmed value neither starts nor ends with whitespace, and
  the normalized string does not start with \<open>@\<close>. \<open>"  @https://x/y  "\<close> normalizes to
  \<open>"https://x/y"\<close>, and so does \<open>"@@https://x/y"\<close>.
\<close>

theorem normalize_url_spec:
  "normalize_url raw_url = dropWhile (\<lambda>c. c = 64) (py_strip raw_url)
   \<and> (\<exists>pre k post. raw_url = pre @ replicate k 64 @ normalize_url raw_url @ post
          \<and> py_strip raw_url = replicate k 64 @ normalize_url raw_url
          \<and> list_all isspace pre \<and> list_all isspace post)
   \<and> (py_strip raw_url \<noteq> [] \<longrightarrow>
          \<not> isspace (hd (py_strip raw_url)) \<and> \<not> isspace (last (py_strip raw_url)))
   \<and> (normalize_url raw_url = [] \<or> hd (normalize_url raw_url) \<noteq> 64)
   \<and> normalize_url (ustr ''  @https://x/y  '') = ustr ''https://x/y''
   \<and> normalize_url (ustr ''@@https://x/y'') = ustr ''https://x/y''"
proof -
  obtain pre post where d: "raw_url = pre @ py_strip raw_url @ post"
    "list_all isspace pre" "list_all isspace post"
    using py_strip_decompose by blast
  obtain k where k: "py_strip raw_url = replicate k 64 @ normalize_url raw_url"
    using normalize_url_decompose by blast
  have "raw_url = pre @ replicate k 64 @ normalize_url raw_url @ post"
    using d(1) k by simp
  then have "\<exists>pre k post. raw_url = pre @ replicate k 64 @ normalize_url raw_url @ post
          \<and> py_strip raw_url = replicate k 64 @ normalize_url raw_url
          \<and> list_all isspace pre \<and> list_all isspace post"
    using d(2,3) k by blast
  then show ?thesis
    using normalize_url_dropWhile [of raw_url] py_strip_ends [of raw_url]
      normalize_url_no_at [of raw_url] normalize_url_example normalize_url_example2
    by blast
qed

theorem normalize_url_spec_witness:
  "py_strip (ustr '' @@a/b  '') \<noteq> []
   \<and> normalize_url (ustr '' @@a/b  '') = ustr ''a/b''
   \<and> hd (normalize_url (ustr '' @@a/b  '')) \<noteq> 64
   \<and> \<not> isspace (hd (py_strip (ustr '' @@a/b  '')))"
proof -
  have s: "py_strip (ustr '' @@a/b  '') = ustr ''@@a/b''"
    by (simp add: py_strip_def ustr_def isspace_def)
  have ne: "py_strip (ustr '' @@a/b  '') \<noteq> []"
    unfolding s by (simp add: ustr_def)
  have n: "dropWhile (\<lambda>c. c = 64) (ustr ''@@a/b'') = ustr ''a/b''"
    by (simp add: ustr_def)
  have "ustr ''a/b'' \<noteq> []" by (simp add: ustr_def)
  then show ?thesis
    using normalize_url_spec [of "ustr '' @@a/b  ''"] ne n unfolding s by auto
qed

section \<open>Properties of get_datetime_from_url\<close>

lemma get_not_string:
  "(\<forall>s. raw_url \<noteq> PStr s) \<Longrightarrow> get_datetime_from_url dv net raw_url st = (None, st)"
  by (cases raw_url) (simp_all add: get_datetime_from_url_def)

lemma get_blank:
  "py_strip r = [] \<Longrightarrow> get_datetime_from_url dv net (PStr r) st = (None, st)"
  by (simp add: get_datetime_from_url_def)

lemma get_hit:
  "py_strip r \<noteq> [] \<Longrightarrow> url_datetime_cache st (normalize_url r) = Some c \<Longrightarrow>
   get_datetime_from_url dv net (PStr r) st = (c, st)"
  by (simp add: get_datetime_from_url_def)

lemma get_miss:
  "py_strip r \<noteq> [] \<Longrightarrow> url_datetime_cache st (normalize_url r) = None \<Longrightarrow>
   get_datetime_from_url dv net (PStr r) st =
     (let dt_obj = (case fetch_datetime dv net (length (fetched st)) (normalize_url r) of
                      Inr found \<Rightarrow> found | Inl e \<Rightarrow> None)
      in (dt_obj,
          st\<lparr>url_datetime_cache := (url_datetime_cache st)(normalize_url r \<mapsto> dt_obj),
             fetched := fetched st @ [normalize_url r]\<rparr>))"
  by (simp add: get_datetime_from_url_def Let_def)

lemma get_cases:
  obtains (skip) "get_datetime_from_url dv net v st = (None, st)"
  | (hit) r c where "v = PStr r" "py_strip r \<noteq> []"
      "url_datetime_cache st (normalize_url r) = Some c"
      "get_datetime_from_url dv net v st = (c, st)"
  | (miss) r res where "v = PStr r" "py_strip r \<noteq> []"
      "url_datetime_cache st (normalize_url r) = None"
      "get_datetime_from_url dv net v st =
         (res, st\<lparr>url_datetime_cache := (url_datetime_cache st)(normalize_url r \<mapsto> res),
                 fetched := fetched st @ [normalize_url r]\<rparr>)"
proof (cases "\<exists>r. v = PStr r \<and> py_strip r \<noteq> []")
  case False
  then have "get_datetime_from_url dv net v st = (None, st)"
    using get_not_string [of v dv net st] get_blank [of _ dv net st] by (cases v) auto
  then show ?thesis by (rule skip)
next
  case True
  then obtain r where r: "v = PStr r" "py_strip r \<noteq> []" by blast
  show ?thesis
  proof (cases "url_datetime_cache st (normalize_url r)")
    case None
    show ?thesis
      using miss [OF r None] get_miss [OF r(2) None, of dv net] r(1)
      by (simp add: Let_def)
  next
    case (Some c)
    show ?thesis
      using hit [OF r Some] get_hit [OF r(2) Some, of dv net] r(1) by simp
  qed
qed

lemma get_caches_result:
  "py_strip r \<noteq> [] \<Longrightarrow>
   url_datetime_cache (snd (get_datetime_from_url dv net (PStr r) st)) (normalize_url r)
     = Some (fst (get_datetime_from_url dv net (PStr r) st))"
  by (cases "url_datetime_cache st (normalize_url r)")
     (simp_all add: get_hit get_miss Let_def)

lemma cache_kept:
  "url_datetime_cache st u = Some c \<Longrightarrow>
   url_datetime_cache (snd (get_datetime_from_url dv net v st)) u = Some c"
  by (cases dv net v st rule: get_cases) auto

lemma calls_cache_kept:
  "url_datetime_cache st u = Some c \<Longrightarrow> url_datetime_cache (calls dv net vs st) u = Some c"
  by (induction vs arbitrary: st) (simp_all add: cache_kept)

lemma fetch_once_get:
  "fetch_once st \<Longrightarrow> fetch_once (snd (get_datetime_from_url dv net v st))"
  by (cases dv net v st rule: get_cases) (auto simp add: fetch_once_def)

lemma fetch_once_calls: "fetch_once st \<Longrightarrow> fetch_once (calls dv net vs st)"
  by (induction vs arbitrary: st) (simp_all add: fetch_once_get)

lemma fetch_once_initial: "fetch_once initial_state"
  by (simp add: fetch_once_def initial_state_def)

lemma distinct_count_list: "distinct xs \<Longrightarrow> count_list xs u \<le> 1"
  by (induction xs) (auto simp add: count_list_0_iff)

text \<open>
  Claim C3. After a call on an input that normalizes to a string, and whatever calls
  follow it, a call on any input that normalizes to the same string returns the value of
  the first call and leaves the state as it is: nothing is fetched and nothing is
  written, whether the value is a timestamp or absence. Over a run that starts with the
  empty cache, no URL is fetched twice.
\<close>

theorem get_datetime_from_url_cached:
  "py_strip r1 \<noteq> [] \<Longrightarrow> py_strip r2 \<noteq> [] \<Longrightarrow> normalize_url r2 = normalize_url r1 \<Longrightarrow>
   get_datetime_from_url dv net (PStr r2)
       (calls dv net vs (snd (get_datetime_from_url dv net (PStr r1) st)))
     = (fst (get_datetime_from_url dv net (PStr r1) st),
        calls dv net vs (snd (get_datetime_from_url dv net (PStr r1) st)))
   \<and> count_list (fetched (calls dv net ws initial_state)) (normalize_url r1) \<le> 1"
proof -
  assume r1: "py_strip r1 \<noteq> []" and r2: "py_strip r2 \<noteq> []"
    and same: "normalize_url r2 = normalize_url r1"
  let ?first = "get_datetime_from_url dv net (PStr r1) st"
  have "url_datetime_cache (snd ?first) (normalize_url r1) = Some (fst ?first)"
    using r1 by (rule get_caches_result)
  then have "url_datetime_cache (calls dv net vs (snd ?first)) (normalize_url r2)
      = Some (fst ?first)"
    unfolding same by (rule calls_cache_kept)
  then have "get_datetime_from_url dv net (PStr r2) (calls dv net vs (snd ?first))
      = (fst ?first, calls dv net vs (snd ?first))"
    using r2 by (simp add: get_hit)
  moreover have "distinct (fetched (calls dv net ws initial_state))"
    using fetch_once_calls [OF fetch_once_initial, of dv net ws] by (simp add: fetch_once_def)
  then have "count_list (fetched (calls dv net ws initial_state)) (normalize_url r1) \<le> 1"
    by (rule distinct_count_list)
  ultimately show ?thesis by blast
qed

theorem get_datetime_from_url_cached_witness:
  "get_datetime_from_url ascii_digits failing_net (PStr (ustr ''  @https://x/y  ''))
       (calls ascii_digits failing_net [PStr (ustr ''https://z''), PNaN]
          (snd (get_datetime_from_url ascii_digits failing_net (PStr (ustr ''https://x/y''))
                  initial_state)))
     = (None,
        calls ascii_digits failing_net [PStr (ustr ''https://z''), PNaN]
          (snd (get_datetime_from_url ascii_digits failing_net (PStr (ustr ''https://x/y''))
                  initial_state)))
   \<and> fetched (calls ascii_digits failing_net [PStr (ustr ''https://z''), PNaN]
          (snd (get_datetime_from_url ascii_digits failing_net (PStr (ustr ''https://x/y''))
                  initial_state)))
       = [ustr ''https://x/y'', ustr ''https://z'']"
proof -
  have s1: "py_strip (ustr ''https://x/y'') = ustr ''https://x/y''"
    by (simp add: py_strip_def ustr_def isspace_def)
  have s2: "py_strip (ustr ''  @https://x/y  '') = ustr ''@https://x/y''"
    by (simp add: py_strip_def ustr_def isspace_def)
  have s3: "py_strip (ustr ''https://z'') = ustr ''https://z''"
    by (simp add: py_strip_def ustr_def isspace_def)
  have n1: "normalize_url (ustr ''https://x/y'') = ustr ''https://x/y''"
    by (simp add: normalize_url_dropWhile s1) (simp add: ustr_def)
  have n2: "normalize_url (ustr ''  @https://x/y  '') = ustr ''https://x/y''"
    by (rule normalize_url_example)
  have n3: "normalize_url (ustr ''https://z'') = ustr ''https://z''"
    by (simp add: normalize_url_dropWhile s3) (simp add: ustr_def)
  have h1: "py_strip (ustr ''https://x/y'') \<noteq> []" unfolding s1 by (simp add: ustr_def)
  have h2: "py_strip (ustr ''  @https://x/y  '') \<noteq> []" unfolding s2 by (simp add: ustr_def)
  have h3: "py_strip (ustr ''https://z'') \<noteq> []" unfolding s3 by (simp add: ustr_def)
  have first: "get_datetime_from_url ascii_digits failing_net (PStr (ustr ''https://x/y''))
      initial_state
      = (None, \<lparr>url_datetime_cache = [ustr ''https://x/y'' \<mapsto> None],
                fetched = [ustr ''https://x/y'']\<rparr>)"
    using get_miss [OF h1, of initial_state ascii_digits failing_net]
    by (simp add: n1 initial_state_def fetch_datetime_def failing_net_def ebind_def)
  have ne: "ustr ''https://z'' \<noteq> ustr ''https://x/y''" by (simp add: ustr_def)
  have second: "get_datetime_from_url ascii_digits failing_net (PStr (ustr ''https://z''))
      \<lparr>url_datetime_cache = [ustr ''https://x/y'' \<mapsto> None], fetched = [ustr ''https://x/y'']\<rparr>
      = (None, \<lparr>url_datetime_cache = [ustr ''https://x/y'' \<mapsto> None, ustr ''https://z'' \<mapsto> None],
                fetched = [ustr ''https://x/y'', ustr ''https://z'']\<rparr>)"
    using get_miss [OF h3, of "\<lparr>url_datetime_cache = [ustr ''https://x/y'' \<mapsto> None],
        fetched = [ustr ''https://x/y'']\<rparr>" ascii_digits failing_net] ne
    by (simp add: n3 fetch_datetime_def failing_net_def ebind_def)
  have third: "get_datetime_from_url ascii_digits failing_net PNaN st = (None, st)" for st
    by (simp add: get_not_string)
  show ?thesis
    using get_datetime_from_url_cached [OF h1 h2, of ascii_digits failing_net
        "[PStr (ustr ''https://z''), PNaN]" initial_state "[]"] n1 n2
    by (simp add: first second third)
qed

text \<open>
  Claim C7. An input that is not a string, or whose trimmed value is empty, gives absence
  and leaves the state as it is: no fetch, no cache entry. When the URL is not cached and
  the fetch raises, whatever the exception, the call returns absence, stores absence
  under the normalized URL and has fetched once.
\<close>

theorem get_datetime_from_url_failures:
  "((\<forall>s. raw_url \<noteq> PStr s) \<or> (\<exists>s. raw_url = PStr s \<and> py_strip s = []) \<longrightarrow>
      get_datetime_from_url dv net raw_url st = (None, st))
   \<and> (py_strip r \<noteq> [] \<and> url_datetime_cache st (normalize_url r) = None
        \<and> net (length (fetched st)) (normalize_url r) = Inl e \<longrightarrow>
      get_datetime_from_url dv net (PStr r) st =
        (None, st\<lparr>url_datetime_cache := (url_datetime_cache st)(normalize_url r \<mapsto> None),
                  fetched := fetched st @ [normalize_url r]\<rparr>))"
proof -
  have "(\<forall>s. raw_url \<noteq> PStr s) \<or> (\<exists>s. raw_url = PStr s \<and> py_strip s = []) \<Longrightarrow>
      get_datetime_from_url dv net raw_url st = (None, st)"
    using get_not_string [of raw_url dv net st] get_blank [of _ dv net st] by blast
  moreover have "py_strip r \<noteq> [] \<Longrightarrow> url_datetime_cache st (normalize_url r) = None \<Longrightarrow>
      net (length (fetched st)) (normalize_url r) = Inl e \<Longrightarrow>
      get_datetime_from_url dv net (PStr r) st =
        (None, st\<lparr>url_datetime_cache := (url_datetime_cache st)(normalize_url r \<mapsto> None),
                  fetched := fetched st @ [normalize_url r]\<rparr>)"
    by (simp add: get_miss fetch_datetime_def ebind_def)
  ultimately show ?thesis by blast
qed

theorem get_datetime_from_url_failures_witness:
  "get_datetime_from_url ascii_digits failing_net PNaN initial_state = (None, initial_state)
   \<and> get_datetime_from_url ascii_digits failing_net (PStr (ustr ''   '')) initial_state
       = (None, initial_state)
   \<and> get_datetime_from_url ascii_digits failing_net (PStr (ustr ''https://z'')) initial_state
       = (None, \<lparr>url_datetime_cache = [ustr ''https://z'' \<mapsto> None],
                 fetched = [ustr ''https://z'']\<rparr>)"
proof -
  have s0: "py_strip (ustr ''   '') = []"
    by (simp add: py_strip_def ustr_def isspace_def)
  have s3: "py_strip (ustr ''https://z'') = ustr ''https://z''"
    by (simp add: py_strip_def ustr_def isspace_def)
  have n3: "normalize_url (ustr ''https://z'') = ustr ''https://z''"
    by (simp add: normalize_url_dropWhile s3) (simp add: ustr_def)
  have h3: "py_strip (ustr ''https://z'') \<noteq> []" unfolding s3 by (simp add: ustr_def)
  have a: "get_datetime_from_url ascii_digits failing_net PNaN initial_state = (None, initial_state)"
    using get_datetime_from_url_failures [of PNaN ascii_digits failing_net initial_state "[]" Timeout]
    by simp
  have b: "get_datetime_from_url ascii_digits failing_net (PStr (ustr ''   '')) initial_state
       = (None, initial_state)"
    using get_datetime_from_url_failures [of "PStr (ustr ''   '')" ascii_digits failing_net
        initial_state "[]" Timeout] s0
    by simp
  have c: "get_datetime_from_url ascii_digits failing_net (PStr (ustr ''https://z'')) initial_state
       = (None, \<lparr>url_datetime_cache = [ustr ''https://z'' \<mapsto> None],
                 fetched = [ustr ''https://z'']\<rparr>)"
    using get_datetime_from_url_failures [of PNaN ascii_digits failing_net initial_state
        "ustr ''https://z''" Timeout] h3
    by (simp add: n3 initial_state_def failing_net_def)
  show ?thesis using a b c by blast
qed

text \<open>
  Claim C10. A string whose trimmed value is not empty and holds nothing but \<open>@\<close> passes
  the guard and normalizes to the empty string. When the empty string is not yet a key of
  the cache, the call fetches it once and stores the result under it, and the result is
  absence when the fetch raises; when it is a key, the call returns the stored value. Either
  way the empty string is a key afterwards and holds the value returned, so all these
  inputs share that one entry.
\<close>

theorem get_datetime_from_url_only_at:
  "py_strip r \<noteq> [] \<and> set (py_strip r) \<subseteq> {64} \<longrightarrow>
     normalize_url r = []
     \<and> (url_datetime_cache st [] = None \<longrightarrow>
          (\<exists>res. get_datetime_from_url dv net (PStr r) st =
              (res, st\<lparr>url_datetime_cache := (url_datetime_cache st)([] \<mapsto> res),
                       fetched := fetched st @ [[]]\<rparr>)
            \<and> (\<forall>e. net (length (fetched st)) [] = Inl e \<longrightarrow> res = None)))
     \<and> (\<forall>c. url_datetime_cache st [] = Some c \<longrightarrow>
          get_datetime_from_url dv net (PStr r) st = (c, st))
     \<and> url_datetime_cache (snd (get_datetime_from_url dv net (PStr r) st)) []
          = Some (fst (get_datetime_from_url dv net (PStr r) st))"
proof (intro impI, elim conjE)
  assume ne: "py_strip r \<noteq> []" and only: "set (py_strip r) \<subseteq> {64}"
  have n: "normalize_url r = []"
    using only by (auto simp add: normalize_url_dropWhile)
  have miss: "\<exists>res. get_datetime_from_url dv net (PStr r) st =
              (res, st\<lparr>url_datetime_cache := (url_datetime_cache st)([] \<mapsto> res),
                       fetched := fetched st @ [[]]\<rparr>)
            \<and> (\<forall>e. net (length (fetched st)) [] = Inl e \<longrightarrow> res = None)"
    if "url_datetime_cache st [] = None"
    using get_miss [OF ne, of st dv net] that
    by (auto simp add: n Let_def fetch_datetime_def ebind_def)
  have hit: "\<forall>c. url_datetime_cache st [] = Some c \<longrightarrow>
          get_datetime_from_url dv net (PStr r) st = (c, st)"
    using get_hit [OF ne, of st _ dv net] by (simp add: n)
  have "url_datetime_cache (snd (get_datetime_from_url dv net (PStr r) st)) []
          = Some (fst (get_datetime_from_url dv net (PStr r) st))"
    using get_caches_result [OF ne, of dv net st] by (simp add: n)
  then show "normalize_url r = []
     \<and> (url_datetime_cache st [] = None \<longrightarrow>
          (\<exists>res. get_datetime_from_url dv net (PStr r) st =
              (res, st\<lparr>url_datetime_cache := (url_datetime_cache st)([] \<mapsto> res),
                       fetched := fetched st @ [[]]\<rparr>)
            \<and> (\<forall>e. net (length (fetched st)) [] = Inl e \<longrightarrow> res = None)))
     \<and> (\<forall>c. url_datetime_cache st [] = Some c \<longrightarrow>
          get_datetime_from_url dv net (PStr r) st = (c, st))
     \<and> url_datetime_cache (snd (get_datetime_from_url dv net (PStr r) st)) []
          = Some (fst (get_datetime_from_url dv net (PStr r) st))"
    using n miss hit by blast
qed

theorem get_datetime_from_url_only_at_witness:
  "normalize_url (ustr '' @@ '') = []
   \<and> get_datetime_from_url ascii_digits schema_net (PStr (ustr '' @@ '')) initial_state
       = (None, \<lparr>url_datetime_cache = [[] \<mapsto> None], fetched = [[]]\<rparr>)
   \<and> get_datetime_from_url ascii_digits schema_net (PStr (ustr ''@''))
        \<lparr>url_datetime_cache = [[] \<mapsto> None], fetched = [[]]\<rparr>
       = (None, \<lparr>url_datetime_cache = [[] \<mapsto> None], fetched = [[]]\<rparr>)"
proof -
  have s1: "py_strip (ustr '' @@ '') = [64, 64]"
    by (simp add: py_strip_def ustr_def isspace_def)
  have s2: "py_strip (ustr ''@'') = [64]"
    by (simp add: py_strip_def ustr_def isspace_def)
  have m: "schema_net 0 [] = Inl MissingSchema" by (simp add: schema_net_def)
  obtain res where res: "get_datetime_from_url ascii_digits schema_net (PStr (ustr '' @@ ''))
      initial_state = (res, initial_state\<lparr>url_datetime_cache :=
          (url_datetime_cache initial_state)([] \<mapsto> res), fetched := fetched initial_state @ [[]]\<rparr>)"
    and none: "\<forall>e. schema_net (length (fetched initial_state)) [] = Inl e \<longrightarrow> res = None"
    using get_datetime_from_url_only_at [of "ustr '' @@ ''" initial_state ascii_digits schema_net]
    unfolding s1 by (auto simp add: initial_state_def)
  have "res = None" using none m by (simp add: initial_state_def)
  then have a: "get_datetime_from_url ascii_digits schema_net (PStr (ustr '' @@ '')) initial_state
       = (None, \<lparr>url_datetime_cache = [[] \<mapsto> None], fetched = [[]]\<rparr>)"
    using res by (simp add: initial_state_def)
  have b: "normalize_url (ustr '' @@ '') = []"
    using get_datetime_from_url_only_at [of "ustr '' @@ ''" initial_state ascii_digits schema_net]
    unfolding s1 by simp
  have c: "get_datetime_from_url ascii_digits schema_net (PStr (ustr ''@''))
        \<lparr>url_datetime_cache = [[] \<mapsto> None], fetched = [[]]\<rparr>
       = (None, \<lparr>url_datetime_cache = [[] \<mapsto> None], fetched = [[]]\<rparr>)"
    using get_datetime_from_url_only_at [of "ustr ''@''"
        "\<lparr>url_datetime_cache = [[] \<mapsto> None], fetched = [[]]\<rparr>" ascii_digits schema_net]
    unfolding s2 by simp
  show ?thesis using a b c by blast
qed

section \<open>Properties of detect_photo_columns\<close>

lemma cols_lower_filter_gen:
  "foldl (\<lambda>m c. m(header_key lower (label c) \<mapsto> label c)) m0 df k =
     (case filter (has_header lower k) df of
        [] \<Rightarrow> m0 k
      | c # cs \<Rightarrow> Some (label (last (c # cs))))"
proof (induction df rule: rev_induct)
  case Nil
  then show ?case by simp
next
  case (snoc x xs)
  then show ?case
    by (auto simp add: has_header_def split: list.splits)
qed

lemma cols_lower_filter:
  "cols_lower lower df k =
     (case filter (has_header lower k) df of
        [] \<Rightarrow> None
      | c # cs \<Rightarrow> Some (label (last (c # cs))))"
  unfolding cols_lower_def by (simp add: cols_lower_filter_gen)

lemma cols_lower_None:
  "cols_lower lower df k = None \<longleftrightarrow> (\<forall>c\<in>set df. \<not> has_header lower k c)"
proof (cases "filter (has_header lower k) df")
  case Nil
  then show ?thesis by (simp add: cols_lower_filter filter_empty_conv)
next
  case (Cons c cs)
  then have "filter (has_header lower k) df \<noteq> []" by simp
  then have "\<exists>c\<in>set df. has_header lower k c" by (simp add: filter_empty_conv)
  then show ?thesis using Cons by (simp add: cols_lower_filter)
qed

lemma cols_lower_Some:
  assumes "\<exists>c\<in>set df. has_header lower k c"
  shows "cols_lower lower df k = Some (label (last (filter (has_header lower k) df)))"
    and "last (filter (has_header lower k) df) \<in> set df"
    and "has_header lower k (last (filter (has_header lower k) df))"
proof -
  have ne: "filter (has_header lower k) df \<noteq> []"
    using assms by (simp add: filter_empty_conv)
  then show "cols_lower lower df k = Some (label (last (filter (has_header lower k) df)))"
    by (cases "filter (has_header lower k) df") (simp_all add: cols_lower_filter)
  have "last (filter (has_header lower k) df) \<in> set (filter (has_header lower k) df)"
    using ne by (rule last_in_set)
  then show "last (filter (has_header lower k) df) \<in> set df"
    and "has_header lower k (last (filter (has_header lower k) df))"
    by simp_all
qed

lemma cols_lower_labels:
  "map label df' = map label df \<Longrightarrow> cols_lower lower df' = cols_lower lower df"
proof -
  assume eq: "map label df' = map label df"
  have "foldl (\<lambda>m c. m(header_key lower (label c) \<mapsto> label c)) m0 d
      = foldl (\<lambda>m l. m(header_key lower l \<mapsto> l)) m0 (map label d)" for m0 and d :: dataframe
    by (induction d arbitrary: m0) simp_all
  then show ?thesis unfolding cols_lower_def using eq by simp
qed

lemma scan_candidates_take:
  "length cand < 2 \<Longrightarrow>
   scan_candidates df cand = take 2 (cand @ map label (filter qualifies df))"
proof (induction df arbitrary: cand)
  case Nil
  then show ?case by simp
next
  case (Cons col rest)
  show ?case
  proof (cases "qualifies col")
    case False
    then have "scan_candidates (col # rest) cand = scan_candidates rest cand"
      using Cons.prems by (auto simp add: qualifies_def Let_def)
    then show ?thesis using False Cons by simp
  next
    case True
    then have q: "is_object col" "contains_saved col" by (simp_all add: qualifies_def)
    show ?thesis
    proof (cases cand)
      case Nil
      have "scan_candidates (col # rest) [] = scan_candidates rest [label col]"
        using q by (simp add: Let_def)
      also have "\<dots> = take 2 ([label col] @ map label (filter qualifies rest))"
        by (rule Cons.IH) simp
      finally show ?thesis using True Nil by simp
    next
      case (Cons c cs)
      then have cs: "cs = []" using Cons.prems by simp
      have "scan_candidates (col # rest) [c] = [c, label col]"
        using q by (simp add: Let_def)
      then show ?thesis using True Cons cs by simp
    qed
  qed
qed

lemma detect_exact:
  assumes "\<exists>c\<in>set df. has_header lower label_before c"
    and "\<exists>c\<in>set df. has_header lower label_after c"
  shows "detect_photo_columns lower df =
        (Some (label (last (filter (has_header lower label_before) df))),
         Some (label (last (filter (has_header lower label_after) df))))"
  by (simp add: detect_photo_columns_def Let_def cols_lower_Some(1) [OF assms(1)]
      cols_lower_Some(1) [OF assms(2)])

lemma detect_labels_only:
  assumes "\<exists>c\<in>set df. has_header lower label_before c"
    and "\<exists>c\<in>set df. has_header lower label_after c"
    and "map label df' = map label df"
  shows "detect_photo_columns lower df' = detect_photo_columns lower df"
proof -
  have c: "cols_lower lower df' = cols_lower lower df"
    using assms(3) by (rule cols_lower_labels)
  have "cols_lower lower df label_before \<noteq> None" "cols_lower lower df label_after \<noteq> None"
    using assms(1,2) by (simp_all add: cols_lower_None)
  then show ?thesis by (simp add: detect_photo_columns_def Let_def c)
qed

text \<open>
  Claim C5. When some header, trimmed and lowered, is the before-label and some header is
  the after-label, the detection returns the columns with these headers (of several with
  one header the rightmost), both columns of the frame. The values and the dtypes play no
  part: every frame with the same headers gives the same answer, whatever the fallback
  would pick from its contents.
\<close>

theorem detect_photo_columns_exact:
  "(\<exists>c\<in>set df. has_header lower label_before c) \<and> (\<exists>c\<in>set df. has_header lower label_after c)
   \<longrightarrow>
     detect_photo_columns lower df =
        (Some (label (last (filter (has_header lower label_before) df))),
         Some (label (last (filter (has_header lower label_after) df))))
     \<and> last (filter (has_header lower label_before) df) \<in> set df
     \<and> has_header lower label_before (last (filter (has_header lower label_before) df))
     \<and> last (filter (has_header lower label_after) df) \<in> set df
     \<and> has_header lower label_after (last (filter (has_header lower label_after) df))
     \<and> (\<forall>df'. map label df' = map label df \<longrightarrow>
           detect_photo_columns lower df' = detect_photo_columns lower df)"
  using detect_exact [of df lower] detect_labels_only [of df lower]
    cols_lower_Some(2,3) [of df lower label_before] cols_lower_Some(2,3) [of df lower label_after]
  by blast

lemma header_key_examples:
  "header_key lower_basic photo_before = label_before"
  "header_key lower_basic photo_after = label_after"
  "header_key lower_basic (PStr (ustr ''a'')) = ustr ''a''"
  "header_key lower_basic (PStr (ustr ''b'')) = ustr ''b''"
  "header_key lower_basic (PStr (ustr ''c'')) = ustr ''c''"
  "header_key lower_basic (PInt 7) = ustr ''7''"
  by (simp_all add: header_key_def py_str_def photo_before_def photo_after_def lower_basic_def
      py_strip_def isspace_def label_before_def label_after_def ustr_def str_int_def
      digits_of.simps)

lemma label_examples:
  "ustr ''a'' \<noteq> label_before" "ustr ''b'' \<noteq> label_before" "ustr ''c'' \<noteq> label_before"
  "ustr ''7'' \<noteq> label_before" "label_after \<noteq> label_before"
  "ustr ''a'' \<noteq> label_after" "ustr ''b'' \<noteq> label_after" "ustr ''c'' \<noteq> label_after"
  "ustr ''7'' \<noteq> label_after" "label_before \<noteq> label_after"
  by (simp_all add: label_before_def label_after_def ustr_def)

theorem detect_photo_columns_exact_witness:
  "detect_photo_columns lower_basic headed_frame = (Some photo_before, Some photo_after)
   \<and> detect_photo_columns lower_basic (map (\<lambda>c. c\<lparr>cells := [], is_object := False\<rparr>) headed_frame)
      = (Some photo_before, Some photo_after)"
proof -
  have h: "has_header lower_basic label_before (number_column photo_before)"
    "has_header lower_basic label_after (number_column photo_after)"
    "\<not> has_header lower_basic label_before (number_column photo_after)"
    "\<not> has_header lower_basic label_after (number_column photo_before)"
    "\<not> has_header lower_basic label_before (saved_column ''a'')"
    "\<not> has_header lower_basic label_before (saved_column ''b'')"
    "\<not> has_header lower_basic label_after (saved_column ''a'')"
    "\<not> has_header lower_basic label_after (saved_column ''b'')"
    by (simp_all add: has_header_def number_column_def saved_column_def header_key_examples
        label_examples)
  have f: "filter (has_header lower_basic label_before) headed_frame = [number_column photo_before]"
    "filter (has_header lower_basic label_after) headed_frame = [number_column photo_after]"
    by (simp_all add: headed_frame_def h)
  have e: "(\<exists>c\<in>set headed_frame. has_header lower_basic label_before c)
      \<and> (\<exists>c\<in>set headed_frame. has_header lower_basic label_after c)"
    by (simp add: headed_frame_def h)
  have l: "map label (map (\<lambda>c. c\<lparr>cells := [], is_object := False\<rparr>) headed_frame)
      = map label headed_frame"
    by simp
  have a: "detect_photo_columns lower_basic headed_frame = (Some photo_before, Some photo_after)"
    using detect_photo_columns_exact [of headed_frame lower_basic] e
    by (simp add: f number_column_def)
  have b: "detect_photo_columns lower_basic (map (\<lambda>c. c\<lparr>cells := [], is_object := False\<rparr>) headed_frame)
      = detect_photo_columns lower_basic headed_frame"
    using detect_photo_columns_exact [of headed_frame lower_basic] e l by blast
  show ?thesis using a b by simp
qed

lemma detect_fallback:
  assumes "(\<forall>c\<in>set df. \<not> has_header lower label_before c)
      \<or> (\<forall>c\<in>set df. \<not> has_header lower label_after c)"
  shows "detect_photo_columns lower df =
       (case filter qualifies df of
          c1 # c2 # rest \<Rightarrow> (Some (label c1), Some (label c2))
        | _ \<Rightarrow> (None, None))"
proof -
  have "cols_lower lower df label_before = None \<or> cols_lower lower df label_after = None"
    using assms by (simp add: cols_lower_None)
  then have d: "detect_photo_columns lower df =
      (let candidate_cols = take 2 (map label (filter qualifies df))
       in if length candidate_cols < 2 then (None, None)
          else (Some (candidate_cols ! 0), Some (candidate_cols ! 1)))"
    by (auto simp add: detect_photo_columns_def Let_def scan_candidates_take)
  show ?thesis
  proof (cases "filter qualifies df")
    case Nil
    then show ?thesis by (simp add: d)
  next
    case (Cons c1 cs)
    then show ?thesis by (cases cs) (simp_all add: d)
  qed
qed

lemma scan_candidates_stops:
  assumes "2 \<le> length (filter qualifies pre)"
  shows "scan_candidates (pre @ post) [] = scan_candidates pre []"
proof -
  have "take 2 (map label (filter qualifies pre) @ map label (filter qualifies post))
      = take 2 (map label (filter qualifies pre))"
    using assms by simp
  then show ?thesis by (simp add: scan_candidates_take)
qed

lemma contains_iff: "contains sub s \<longleftrightarrow> (\<exists>pre post. s = pre @ sub @ post)"
proof (induction s)
  case Nil
  then show ?case by auto
next
  case (Cons c cs)
  have pre: "take (length sub) (c # cs) = sub \<longleftrightarrow> (\<exists>post. c # cs = sub @ post)"
    by (metis append_eq_conv_conj)
  show ?case
  proof
    assume "contains sub (c # cs)"
    then consider "take (length sub) (c # cs) = sub" | "contains sub cs" by auto
    then show "\<exists>pre post. c # cs = pre @ sub @ post"
    proof cases
      case 1
      then obtain post where "c # cs = sub @ post" using pre by blast
      then have "c # cs = [] @ sub @ post" by simp
      then show ?thesis by blast
    next
      case 2
      then obtain p q where "cs = p @ sub @ q" using Cons.IH by blast
      then have "c # cs = (c # p) @ sub @ q" by simp
      then show ?thesis by blast
    qed
  next
    assume "\<exists>pre post. c # cs = pre @ sub @ post"
    then obtain p q where e: "c # cs = p @ sub @ q" by blast
    show "contains sub (c # cs)"
    proof (cases p)
      case Nil
      then have "c # cs = sub @ q" using e by simp
      then have "take (length sub) (c # cs) = sub" using pre by blast
      then show ?thesis by simp
    next
      case (Cons x p')
      then have "cs = p' @ sub @ q" using e by simp
      then have "contains sub cs" using Cons.IH by blast
      then show ?thesis by simp
    qed
  qed
qed

lemma qualifies_textual: "qualifies col \<longleftrightarrow> textual_with_marker col"
  by (simp add: qualifies_def textual_with_marker_def contains_saved_def list_ex_iff contains_iff)

lemma filter_qualifies: "filter qualifies df = filter textual_with_marker df"
  by (rule filter_cong) (simp_all add: qualifies_textual)

text \<open>
  Claim C6. When no header matches the before-label or no header matches the
  after-label, the detection returns the first two columns, from left to right, that
  are of object dtype and have a value whose text contains \<open>saved-\<close>, and absence for
  both keys when fewer than two columns are such. The scan stops at the second: the
  columns after it do not change what it collects.
\<close>

theorem detect_photo_columns_fallback:
  "((\<forall>c\<in>set df. \<not> has_header lower label_before c)
      \<or> (\<forall>c\<in>set df. \<not> has_header lower label_after c)
    \<longrightarrow>
      detect_photo_columns lower df =
       (case filter textual_with_marker df of
          c1 # c2 # rest \<Rightarrow> (Some (label c1), Some (label c2))
        | _ \<Rightarrow> (None, None)))
   \<and> (2 \<le> length (filter textual_with_marker pre) \<longrightarrow>
        scan_candidates (pre @ post) [] = scan_candidates pre [])"
  using detect_fallback [of df lower] scan_candidates_stops [of pre post]
  unfolding filter_qualifies by blast

lemma contains_saved_examples:
  "contains_saved (saved_column name)" "\<not> contains_saved (number_column lbl)"
  by (simp_all add: contains_saved_def saved_column_def number_column_def py_str_def ustr_def
      str_int_def digits_of.simps)

lemma qualifies_examples:
  "qualifies (saved_column name)" "\<not> qualifies (number_column lbl)"
  by (simp_all add: qualifies_def contains_saved_examples)
     (simp_all add: saved_column_def number_column_def)

lemma textual_examples:
  "textual_with_marker (saved_column name)"
  "\<not> textual_with_marker (text_column name)"
  "\<not> textual_with_marker (number_column lbl)"
proof -
  have "ustr ''https://h/saved-20240101_100000.jpg''
      = ustr ''https://h/'' @ ustr ''saved-'' @ ustr ''20240101_100000.jpg''"
    by (simp add: ustr_def)
  then have "\<exists>pre post. py_str (PStr (ustr ''https://h/saved-20240101_100000.jpg''))
      = pre @ ustr ''saved-'' @ post"
    unfolding py_str_def by (simp only: pyval.case) blast
  then show "textual_with_marker (saved_column name)"
    by (simp add: textual_with_marker_def saved_column_def)
  have "\<not> contains (ustr ''saved-'') (ustr ''https://h/save-d.jpg'')"
    "\<not> contains (ustr ''saved-'') (ustr ''saved'')"
    by (simp_all add: ustr_def)
  then have "\<not> (\<exists>pre post. py_str (PStr (ustr ''https://h/save-d.jpg'')) = pre @ ustr ''saved-'' @ post)"
    "\<not> (\<exists>pre post. py_str (PStr (ustr ''saved'')) = pre @ ustr ''saved-'' @ post)"
    by (simp_all add: contains_iff py_str_def)
  then show "\<not> textual_with_marker (text_column name)"
    by (simp add: textual_with_marker_def text_column_def)
  show "\<not> textual_with_marker (number_column lbl)"
    by (simp add: textual_with_marker_def number_column_def)
qed

lemma header_key_text:
  "header_key lower_basic (PStr (ustr ''t'')) = ustr ''t''"
  "header_key lower_basic (PStr (ustr ''u'')) = ustr ''u''"
  "ustr ''t'' \<noteq> label_after" "ustr ''u'' \<noteq> label_after"
  by (simp_all add: header_key_def py_str_def lower_basic_def py_strip_def isspace_def ustr_def
      label_after_def)

theorem detect_photo_columns_fallback_witness:
  "detect_photo_columns lower_basic unheaded_frame
      = (Some (PStr (ustr ''a'')), Some (PStr (ustr ''b'')))
   \<and> detect_photo_columns lower_basic
        [saved_column ''a'', text_column ''t'', number_column (PInt 7)]
      = (None, None)
   \<and> scan_candidates ([saved_column ''a'', saved_column ''b''] @ [saved_column ''c'']) []
      = scan_candidates [saved_column ''a'', saved_column ''b''] []"
proof -
  have h: "\<not> has_header lower_basic label_after (number_column photo_before)"
    "\<not> has_header lower_basic label_after (saved_column ''a'')"
    "\<not> has_header lower_basic label_after (saved_column ''b'')"
    "\<not> has_header lower_basic label_after (saved_column ''c'')"
    "\<not> has_header lower_basic label_after (text_column ''t'')"
    "\<not> has_header lower_basic label_after (text_column ''u'')"
    "\<not> has_header lower_basic label_after (number_column (PInt 7))"
    by (simp_all add: has_header_def number_column_def saved_column_def text_column_def
        header_key_examples header_key_text label_examples)
  have f1: "filter textual_with_marker unheaded_frame
      = [saved_column ''a'', saved_column ''b'', saved_column ''c'']"
    by (simp add: unheaded_frame_def textual_examples)
  have f2: "filter textual_with_marker
        [saved_column ''a'', text_column ''t'', number_column (PInt 7)]
      = [saved_column ''a'']"
    by (simp add: textual_examples)
  have f3: "2 \<le> length (filter textual_with_marker [saved_column ''a'', saved_column ''b''])"
    by (simp add: textual_examples)
  have a: "detect_photo_columns lower_basic unheaded_frame
      = (Some (PStr (ustr ''a'')), Some (PStr (ustr ''b'')))"
  proof -
    have "\<forall>c\<in>set unheaded_frame. \<not> has_header lower_basic label_after c"
      by (simp add: unheaded_frame_def h)
    then have "detect_photo_columns lower_basic unheaded_frame =
       (case filter textual_with_marker unheaded_frame of
          c1 # c2 # rest \<Rightarrow> (Some (label c1), Some (label c2))
        | _ \<Rightarrow> (None, None))"
      using detect_photo_columns_fallback [of unheaded_frame lower_basic "[]" "[]"] by blast
    then show ?thesis unfolding f1 by (simp add: saved_column_def)
  qed
  have b: "detect_photo_columns lower_basic
        [saved_column ''a'', text_column ''t'', number_column (PInt 7)]
      = (None, None)"
  proof -
    have "\<forall>c\<in>set [saved_column ''a'', text_column ''t'', number_column (PInt 7)].
        \<not> has_header lower_basic label_after c"
      by (simp add: h)
    then have "detect_photo_columns lower_basic
          [saved_column ''a'', text_column ''t'', number_column (PInt 7)] =
       (case filter textual_with_marker
            [saved_column ''a'', text_column ''t'', number_column (PInt 7)] of
          c1 # c2 # rest \<Rightarrow> (Some (label c1), Some (label c2))
        | _ \<Rightarrow> (None, None))"
      using detect_photo_columns_fallback
          [of "[saved_column ''a'', text_column ''t'', number_column (PInt 7)]"
            lower_basic "[]" "[]"] by blast
    then show ?thesis unfolding f2 by simp
  qed
  have c: "scan_candidates ([saved_column ''a'', saved_column ''b''] @ [saved_column ''c'']) []
      = scan_candidates [saved_column ''a'', saved_column ''b''] []"
    using detect_photo_columns_fallback [of "[]" lower_basic
        "[saved_column ''a'', saved_column ''b'']" "[saved_column ''c'']"] f3
    by blast
  show ?thesis using a b c by blast
qed

section \<open>Properties of process_dataframe\<close>

lemma process_dataframe_fails:
  "fst (detect_photo_columns lower df) = None \<or> snd (detect_photo_columns lower df) = None \<Longrightarrow>
   process_dataframe lower dv net df st = (Inl (ValueError, detection_message), st)"
  by (cases "detect_photo_columns lower df")
     (auto simp add: process_dataframe_def split: option.splits)

lemma detect_none:
  assumes "(\<forall>c\<in>set df. \<not> has_header lower label_before c)
      \<or> (\<forall>c\<in>set df. \<not> has_header lower label_after c)"
    and "length (filter qualifies df) < 2"
  shows "detect_photo_columns lower df = (None, None)"
proof -
  have "detect_photo_columns lower df =
       (case filter qualifies df of
          c1 # c2 # rest \<Rightarrow> (Some (label c1), Some (label c2))
        | _ \<Rightarrow> (None, None))"
    using assms(1) by (rule detect_fallback)
  then show ?thesis using assms(2)
    by (cases "filter qualifies df") (auto split: list.splits)
qed

text \<open>
  Claim C8. When the detection returns absence for a key, \<open>process_dataframe\<close> raises
  \<open>ValueError\<close> with its message and returns nothing; the state of the resolver is the
  one before the call, so no row was processed, no URL fetched and nothing cached. The
  input frame is a value and is not changed. This is the case whenever a header is
  missing and fewer than two columns qualify for the fallback.
\<close>

theorem process_dataframe_detection_failure:
  "(fst (detect_photo_columns lower df) = None \<or> snd (detect_photo_columns lower df) = None
      \<longrightarrow> process_dataframe lower dv net df st = (Inl (ValueError, detection_message), st))
   \<and> (((\<forall>c\<in>set df. \<not> has_header lower label_before c)
          \<or> (\<forall>c\<in>set df. \<not> has_header lower label_after c))
        \<and> length (filter qualifies df) < 2
      \<longrightarrow> process_dataframe lower dv net df st = (Inl (ValueError, detection_message), st))"
proof -
  have "process_dataframe lower dv net df st = (Inl (ValueError, detection_message), st)"
    if "((\<forall>c\<in>set df. \<not> has_header lower label_before c)
          \<or> (\<forall>c\<in>set df. \<not> has_header lower label_after c))
        \<and> length (filter qualifies df) < 2"
    using that detect_none [of df lower] process_dataframe_fails [of lower df dv net st]
    by auto
  then show ?thesis
    using process_dataframe_fails [of lower df dv net st] by blast
qed

theorem process_dataframe_detection_failure_witness:
  "process_dataframe lower_basic ascii_digits schema_net
       [saved_column ''a'', number_column photo_before] initial_state
     = (Inl (ValueError, detection_message), initial_state)"
proof -
  let ?df = "[saved_column ''a'', number_column photo_before]"
  have h: "\<forall>c\<in>set ?df. \<not> has_header lower_basic label_after c"
    by (simp add: has_header_def number_column_def saved_column_def header_key_examples
        label_examples)
  have f: "length (filter qualifies ?df) < 2"
    by (simp add: qualifies_examples)
  show ?thesis
    using process_dataframe_detection_failure [of lower_basic ?df ascii_digits schema_net
        initial_state] h f
    by blast
qed

lemma photo_headers:
  "has_header lower_basic label_before c \<longleftrightarrow> header_key lower_basic (label c) = label_before"
  "has_header lower_basic label_after c \<longleftrightarrow> header_key lower_basic (label c) = label_after"
  by (simp_all add: has_header_def)

lemma header_key_n: "header_key lower_basic (PStr (ustr ''n'')) = ustr ''n''"
  by (simp add: header_key_def py_str_def lower_basic_def py_strip_def isspace_def ustr_def)

lemma label_n: "ustr ''n'' \<noteq> label_before" "ustr ''n'' \<noteq> label_after"
  by (simp_all add: label_before_def label_after_def ustr_def)

lemma detect_photo_frame:
  "detect_photo_columns lower_basic photo_frame = (Some photo_before, Some photo_after)"
proof -
  have f: "filter (has_header lower_basic label_before) photo_frame
      = [\<lparr>label = photo_before, is_object = True, cells = [url_1000, PNaN, url_1045]\<rparr>]"
    "filter (has_header lower_basic label_after) photo_frame
      = [\<lparr>label = photo_after, is_object = True, cells = [url_1045, url_1045, url_1000]\<rparr>]"
    by (simp_all add: photo_frame_def photo_headers header_key_examples header_key_n
        label_examples label_n)
  have "\<exists>c\<in>set photo_frame. has_header lower_basic label_before c"
    "\<exists>c\<in>set photo_frame. has_header lower_basic label_after c"
    by (simp_all add: photo_frame_def photo_headers header_key_examples)
  then show ?thesis
    using detect_exact [of photo_frame lower_basic] by (simp add: f)
qed

lemma photo_labels_differ: "photo_before \<noteq> photo_after" "photo_after \<noteq> photo_before"
  "PStr (ustr ''n'') \<noteq> photo_after" "photo_after \<noteq> PStr (ustr ''n'')"
  "PStr (ustr ''n'') \<noteq> photo_before" "photo_before \<noteq> PStr (ustr ''n'')"
  by (simp_all add: photo_before_def photo_after_def ustr_def)

lemma photo_frame_columns:
  "column_of (frame_of photo_frame) photo_before = [url_1000, PNaN, url_1045]"
  "column_of (frame_of photo_frame) photo_after = [url_1045, url_1045, url_1000]"
  by (simp_all add: column_of_def frame_of_def photo_frame_def photo_labels_differ)

lemma ascii_decimal [simp]:
  "is_decimal ascii_digits 48" "is_decimal ascii_digits 49" "is_decimal ascii_digits 50"
  "is_decimal ascii_digits 51" "is_decimal ascii_digits 52" "is_decimal ascii_digits 53"
  by (simp_all add: is_decimal_def)

lemma search_1000:
  "re_search ascii_digits (ustr ''https://h/saved-20240101_100000.jpg'')
     = Some (ustr ''20240101'', ustr ''100000'')"
  by (simp add: ustr_def match_here_def)

lemma search_1045:
  "re_search ascii_digits (ustr ''https://h/saved-20240101_104500.jpg'')
     = Some (ustr ''20240101'', ustr ''104500'')"
  by (simp add: ustr_def match_here_def)

lemma parse_1000: "parse_parts ascii_digits (ustr ''20240101'') (ustr ''100000'') = Inr time_1000"
  by (simp add: parse_parts_def ustr_def py_slice_def py_int_def ebind_def datetime_new_def
      valid_datetime_def days_in_month_def time_1000_def)

lemma parse_1045: "parse_parts ascii_digits (ustr ''20240101'') (ustr ''104500'') = Inr time_1045"
  by (simp add: parse_parts_def ustr_def py_slice_def py_int_def ebind_def datetime_new_def
      valid_datetime_def days_in_month_def time_1045_def)

lemma fetch_examples:
  "fetch_datetime ascii_digits schema_net n (ustr ''https://h/saved-20240101_100000.jpg'')
     = Inr (Some time_1000)"
  "fetch_datetime ascii_digits schema_net n (ustr ''https://h/saved-20240101_104500.jpg'')
     = Inr (Some time_1045)"
proof -
  have ne: "ustr ''https://h/saved-20240101_100000.jpg'' \<noteq> []"
    "ustr ''https://h/saved-20240101_104500.jpg'' \<noteq> []"
    by (simp_all add: ustr_def)
  show "fetch_datetime ascii_digits schema_net n (ustr ''https://h/saved-20240101_100000.jpg'')
     = Inr (Some time_1000)"
    by (simp add: fetch_datetime_def schema_net_def ne ebind_def extract_datetime_from_string_def
        search_1000 parse_1000)
  show "fetch_datetime ascii_digits schema_net n (ustr ''https://h/saved-20240101_104500.jpg'')
     = Inr (Some time_1045)"
    by (simp add: fetch_datetime_def schema_net_def ne ebind_def extract_datetime_from_string_def
        search_1045 parse_1045)
qed

lemma url_examples:
  "py_strip (ustr ''https://h/saved-20240101_100000.jpg'') \<noteq> []"
  "py_strip (ustr ''https://h/saved-20240101_104500.jpg'') \<noteq> []"
  "normalize_url (ustr ''https://h/saved-20240101_100000.jpg'')
     = ustr ''https://h/saved-20240101_100000.jpg''"
  "normalize_url (ustr ''https://h/saved-20240101_104500.jpg'')
     = ustr ''https://h/saved-20240101_104500.jpg''"
  "ustr ''https://h/saved-20240101_100000.jpg'' \<noteq> ustr ''https://h/saved-20240101_104500.jpg''"
  "ustr ''https://h/saved-20240101_104500.jpg'' \<noteq> ustr ''https://h/saved-20240101_100000.jpg''"
  by (simp_all add: normalize_url_dropWhile py_strip_def ustr_def isspace_def)

lemma get_examples:
  "get_datetime_from_url ascii_digits schema_net url_1000 initial_state =
     (Some time_1000,
      \<lparr>url_datetime_cache = [ustr ''https://h/saved-20240101_100000.jpg'' \<mapsto> Some time_1000],
       fetched = [ustr ''https://h/saved-20240101_100000.jpg'']\<rparr>)"
  "get_datetime_from_url ascii_digits schema_net url_1045
      \<lparr>url_datetime_cache = [ustr ''https://h/saved-20240101_100000.jpg'' \<mapsto> Some time_1000],
       fetched = [ustr ''https://h/saved-20240101_100000.jpg'']\<rparr> =
     (Some time_1045,
      \<lparr>url_datetime_cache = [ustr ''https://h/saved-20240101_100000.jpg'' \<mapsto> Some time_1000,
         ustr ''https://h/saved-20240101_104500.jpg'' \<mapsto> Some time_1045],
       fetched = [ustr ''https://h/saved-20240101_100000.jpg'',
         ustr ''https://h/saved-20240101_104500.jpg'']\<rparr>)"
  "get_datetime_from_url ascii_digits schema_net url_1045
      \<lparr>url_datetime_cache = [ustr ''https://h/saved-20240101_100000.jpg'' \<mapsto> Some time_1000,
         ustr ''https://h/saved-20240101_104500.jpg'' \<mapsto> Some time_1045],
       fetched = [ustr ''https://h/saved-20240101_100000.jpg'',
         ustr ''https://h/saved-20240101_104500.jpg'']\<rparr> =
     (Some time_1045,
      \<lparr>url_datetime_cache = [ustr ''https://h/saved-20240101_100000.jpg'' \<mapsto> Some time_1000,
         ustr ''https://h/saved-20240101_104500.jpg'' \<mapsto> Some time_1045],
       fetched = [ustr ''https://h/saved-20240101_100000.jpg'',
         ustr ''https://h/saved-20240101_104500.jpg'']\<rparr>)"
  "get_datetime_from_url ascii_digits schema_net url_1000
      \<lparr>url_datetime_cache = [ustr ''https://h/saved-20240101_100000.jpg'' \<mapsto> Some time_1000,
         ustr ''https://h/saved-20240101_104500.jpg'' \<mapsto> Some time_1045],
       fetched = [ustr ''https://h/saved-20240101_100000.jpg'',
         ustr ''https://h/saved-20240101_104500.jpg'']\<rparr> =
     (Some time_1000,
      \<lparr>url_datetime_cache = [ustr ''https://h/saved-20240101_100000.jpg'' \<mapsto> Some time_1000,
         ustr ''https://h/saved-20240101_104500.jpg'' \<mapsto> Some time_1045],
       fetched = [ustr ''https://h/saved-20240101_100000.jpg'',
         ustr ''https://h/saved-20240101_104500.jpg'']\<rparr>)"
  "get_datetime_from_url ascii_digits schema_net PNaN st = (None, st)"
  unfolding url_1000_def url_1045_def
  by (simp_all add: get_miss get_hit get_not_string url_examples fetch_examples
      initial_state_def Let_def)

lemma interval_examples:
  "row_interval (Some time_1000) (Some time_1045) = (Some 45, [52, 53, 32, 1084, 1080, 1085])"
  "row_interval None (Some time_1045) = (None, [])"
  "row_interval (Some time_1045) (Some time_1000) = (None, error_label)"
proof -
  have d: "(seconds_since_origin time_1045 - seconds_since_origin time_1000) div 60 = 45"
    "(seconds_since_origin time_1000 - seconds_since_origin time_1045) div 60 = - 45"
    by (simp_all add: time_1000_def time_1045_def seconds_since_origin_simp)
  show "row_interval (Some time_1000) (Some time_1045) = (Some 45, [52, 53, 32, 1084, 1080, 1085])"
    by (simp add: row_interval_def total_seconds_datetime_sub d format_interval_def str_int_45
        minutes_label_def)
  show "row_interval None (Some time_1045) = (None, [])"
    by (simp add: row_interval_def)
  show "row_interval (Some time_1045) (Some time_1000) = (None, error_label)"
    by (simp add: row_interval_def total_seconds_datetime_sub d)
qed

lemma photo_rows:
  "fst (process_rows ascii_digits schema_net
          [(url_1000, url_1045), (PNaN, url_1045), (url_1045, url_1000)] initial_state) =
     [\<lparr>before_date = Some time_1000, after_date = Some time_1045,
       minutes_raw = Some 45, interval_str = [52, 53, 32, 1084, 1080, 1085]\<rparr>,
      \<lparr>before_date = None, after_date = Some time_1045,
       minutes_raw = None, interval_str = []\<rparr>,
      \<lparr>before_date = Some time_1045, after_date = Some time_1000,
       minutes_raw = None, interval_str = error_label\<rparr>]"
  by (simp add: Let_def get_examples interval_examples)

lemma process_dataframe_photo_frame:
  "fst (process_dataframe lower_basic ascii_digits schema_net photo_frame initial_state) =
     Inr \<lparr>out_before_col = photo_before, out_after_col = photo_after,
          out_rows =
            [\<lparr>before_date = Some time_1000, after_date = Some time_1045,
              minutes_raw = Some 45, interval_str = [52, 53, 32, 1084, 1080, 1085]\<rparr>,
             \<lparr>before_date = None, after_date = Some time_1045,
              minutes_raw = None, interval_str = []\<rparr>,
             \<lparr>before_date = Some time_1045, after_date = Some time_1000,
              minutes_raw = None, interval_str = error_label\<rparr>]\<rparr>"
  by (simp add: process_dataframe_def detect_photo_frame Let_def photo_frame_columns photo_rows
      del: process_rows.simps)

section \<open>Properties of the preview\<close>

lemma apply_series_raises:
  "x \<in> set xs \<Longrightarrow> f x = Inl e \<Longrightarrow> (\<And>y e'. y \<in> set xs \<Longrightarrow> f y = Inl e' \<Longrightarrow> e' = e) \<Longrightarrow>
   apply_series f xs = Inl e"
proof (induction xs)
  case Nil
  then show ?case by simp
next
  case (Cons y ys)
  show ?case
  proof (cases "f y")
    case (Inl e')
    have "y \<in> set (y # ys)" by simp
    then have "e' = e" using Inl by (rule Cons.prems(3))
    then show ?thesis using Inl by (simp add: ebind_def)
  next
    case (Inr v)
    have "x \<noteq> y"
    proof
      assume "x = y"
      then have "f y = Inl e" using Cons.prems(2) by (simp only:)
      then show False using Inr by (simp only: sum.distinct)
    qed
    then have m: "x \<in> set ys" using Cons.prems(1) by simp
    have "apply_series f ys = Inl e"
    proof (rule Cons.IH [OF m Cons.prems(2)])
      fix z e'
      assume "z \<in> set ys" and fz: "f z = Inl e'"
      then have "z \<in> set (y # ys)" by simp
      then show "e' = e" using fz by (rule Cons.prems(3))
    qed
    then show ?thesis using Inr by (simp add: ebind_def)
  qed
qed

lemma format_date_error: "format_date x = Inl e \<Longrightarrow> e = ValueError"
  by (cases x) (simp_all add: format_date_def)


lemma preview_dates_raises:
  assumes "None \<in> set (take 15 ds)" and "Some t \<in> set ds"
    and "\<forall>u. Some u \<in> set ds \<longrightarrow> 1678 \<le> year u \<and> year u \<le> 2261"
  shows "preview_dates ds = Some (Inl ValueError)"
proof -
  let ?col = "map (\<lambda>d. case d of None \<Rightarrow> NaT | Some t \<Rightarrow> Timestamp t) ds"
  have "\<not> list_all (\<lambda>d. d = None) ds"
    using assms(2) by (auto simp add: list_all_iff)
  moreover have "list_all (\<lambda>d. case d of None \<Rightarrow> True
      | Some t \<Rightarrow> 1678 \<le> year t \<and> year t \<le> 2261) ds"
    using assms(3) by (auto simp add: list_all_iff split: option.splits)
  ultimately have s: "store_dates ds = Some ?col"
    by (simp add: store_dates_def)
  have "NaT \<in> set (take 15 ?col)"
  proof -
    have "(case None of None \<Rightarrow> NaT | Some t \<Rightarrow> Timestamp t) \<in>
        (\<lambda>d. case d of None \<Rightarrow> NaT | Some t \<Rightarrow> Timestamp t) ` set (take 15 ds)"
      using assms(1) by (rule imageI)
    then show ?thesis by (simp add: take_map)
  qed
  moreover have "format_date NaT = Inl ValueError"
    by (simp add: format_date_def)
  ultimately have "apply_series format_date (take 15 ?col) = Inl ValueError"
    by (rule apply_series_raises) (rule format_date_error)
  then show ?thesis by (simp add: preview_dates_def s)
qed

text \<open>
  Claim C9 does not hold of the program. On the frame of three rows whose before-link
  is missing in the second row, the detection succeeds and the loop appends a timestamp,
  \<open>None\<close> and a timestamp to \<open>before_dates\<close>. pandas stores that list as a
  \<open>datetime64\<close> column with \<open>NaT\<close> in the second row, the function of the preview
  takes \<open>NaT\<close> for a \<open>datetime\<close>, and \<open>strftime\<close> raises \<open>ValueError\<close> on it: the
  absent timestamp is not shown as the empty string, and no preview is made.
\<close>

theorem process_dataframe_preview_raises:
  "fst (process_dataframe lower_basic ascii_digits schema_net photo_frame initial_state) =
     Inr \<lparr>out_before_col = photo_before, out_after_col = photo_after,
          out_rows =
            [\<lparr>before_date = Some time_1000, after_date = Some time_1045,
              minutes_raw = Some 45, interval_str = [52, 53, 32, 1084, 1080, 1085]\<rparr>,
             \<lparr>before_date = None, after_date = Some time_1045,
              minutes_raw = None, interval_str = []\<rparr>,
             \<lparr>before_date = Some time_1045, after_date = Some time_1000,
              minutes_raw = None, interval_str = error_label\<rparr>]\<rparr>
   \<and> store_dates [Some time_1000, None, Some time_1045]
       = Some [Timestamp time_1000, NaT, Timestamp time_1045]
   \<and> preview_dates [Some time_1000, None, Some time_1045] = Some (Inl ValueError)"
proof -
  have y: "year time_1000 = 2024" "year time_1045 = 2024"
    by (simp_all add: time_1000_def time_1045_def)
  have s: "store_dates [Some time_1000, None, Some time_1045]
       = Some [Timestamp time_1000, NaT, Timestamp time_1045]"
    by (simp add: store_dates_def y)
  have "None \<in> set (take 15 [Some time_1000, None, Some time_1045])"
    by simp
  moreover have "Some time_1000 \<in> set [Some time_1000, None, Some time_1045]"
    by simp
  moreover have "\<forall>u. Some u \<in> set [Some time_1000, None, Some time_1045]
      \<longrightarrow> 1678 \<le> year u \<and> year u \<le> 2261"
    using y by auto
  ultimately have "preview_dates [Some time_1000, None, Some time_1045] = Some (Inl ValueError)"
    by (rule preview_dates_raises)
  then show ?thesis using process_dataframe_photo_frame s by simp
qed

end
